theory Spec2Isabelle
  imports Complex_Main
begin

section \<open>Shared utilities (backend/common/utils.py)\<close>

text \<open>
  Python floats are modelled as exact reals: the rounding of IEEE arithmetic is not part of
  the model. The wall clock (\<open>time.time()\<close>) is an input of every function that reads it.
\<close>

subsection \<open>FPSCounter\<close>

record FPSCounter =
  window_seconds :: real
  frame_times :: "real list"

definition FPSCounter_init :: "real \<Rightarrow> FPSCounter" where
  "FPSCounter_init w = \<lparr>window_seconds = w, frame_times = []\<rparr>"

text \<open>\<open>tick\<close>: append the current time, then keep the times strictly after the cutoff.\<close>

definition tick :: "real \<Rightarrow> FPSCounter \<Rightarrow> FPSCounter" where
  "tick current_time c =
     (let appended = frame_times c @ [current_time];
          cutoff_time = current_time - window_seconds c
      in c\<lparr>frame_times := filter (\<lambda>t. t > cutoff_time) appended\<rparr>)"

text \<open>
  \<open>get_fps\<close>: 0.0 below two samples or on a zero span, otherwise the number of samples
  divided by the span between the first and the last one. The list indices \<open>[0]\<close> and
  \<open>[-1]\<close> are read only when the list has two elements or more.
\<close>

definition get_fps :: "FPSCounter \<Rightarrow> real" where
  "get_fps c =
     (if length (frame_times c) < 2 then 0
      else let time_span = last (frame_times c) - hd (frame_times c)
           in if time_span = 0 then 0
              else real (length (frame_times c)) / time_span)"

text \<open>A run of ticks, one per clock reading, in order.\<close>

definition ticks :: "real list \<Rightarrow> FPSCounter \<Rightarrow> FPSCounter" where
  "ticks clock c = foldl (\<lambda>acc t. tick t acc) c clock"

subsection \<open>LatencyTracker\<close>

record LatencyTracker =
  window_size :: int
  latencies :: "real list"
  total_samples :: int

definition LatencyTracker_init :: "int \<Rightarrow> LatencyTracker" where
  "LatencyTracker_init w = \<lparr>window_size = w, latencies = [], total_samples = 0\<rparr>"

definition add_sample :: "real \<Rightarrow> LatencyTracker \<Rightarrow> LatencyTracker" where
  "add_sample latency_ms l =
     (let appended = latencies l @ [latency_ms];
          l1 = l\<lparr>latencies := appended, total_samples := total_samples l + 1\<rparr>
      in if int (length appended) > window_size l then l1\<lparr>latencies := tl appended\<rparr> else l1)"

definition get_average :: "LatencyTracker \<Rightarrow> real" where
  "get_average l =
     (if latencies l = [] then 0 else sum_list (latencies l) / real (length (latencies l)))"

section \<open>RTSPReader (backend/streaming/rtsp_reader.py)\<close>

datatype error = ValueError string | ConnectionError string | KeyError string

text \<open>A frame is an opaque pixel buffer, named by a number.\<close>

datatype frame = Frame nat

text \<open>
  What the outside world answers during one call of the reader: whether
  \<open>cv2.VideoCapture(url)\<close> comes back opened, what \<open>capture.read()\<close> returns (\<open>None\<close>
  stands for \<open>ret\<close> false, a \<open>None\<close> frame or an exception, which the code treats alike),
  the clock at the tick, and the measured duration of the read.
\<close>

record env =
  opened :: bool
  grabbed :: "frame option"
  now :: real
  read_time_ms :: real

text \<open>
  The fields of the class, with \<open>capture\<close> holding the answer of \<open>isOpened()\<close> of the
  current capture object. \<open>connect_calls\<close> is a ghost field: it counts the calls of
  \<open>connect\<close>, that is, the attempts to open the source; no code path reads it.
\<close>

record RTSPReader =
  session_id :: string
  url :: string
  fps :: int
  username :: "string option"
  password :: "string option"
  is_webcam :: bool
  reconnect_delay :: real
  max_reconnect_attempts :: int
  capture :: "bool option"
  is_connected :: bool
  reader_is_running :: bool
  fps_counter :: FPSCounter
  latency_tracker :: LatencyTracker
  total_frames :: int
  dropped_frames :: int
  reconnect_attempts :: int
  connect_calls :: nat

text \<open>The constructor, every argument explicit (the defaults are filled in by the caller).\<close>

definition RTSPReader_init ::
  "string \<Rightarrow> string \<Rightarrow> int \<Rightarrow> string option \<Rightarrow> string option \<Rightarrow> bool \<Rightarrow> real \<Rightarrow> int \<Rightarrow> RTSPReader"
where
  "RTSPReader_init sid u f usr pwd webcam delay max_attempts =
     \<lparr>session_id = sid, url = u, fps = f, username = usr, password = pwd,
      is_webcam = webcam, reconnect_delay = delay, max_reconnect_attempts = max_attempts,
      capture = None, is_connected = False, reader_is_running = False,
      fps_counter = FPSCounter_init 1, latency_tracker = LatencyTracker_init 100,
      total_frames = 0, dropped_frames = 0, reconnect_attempts = 0, connect_calls = 0\<rparr>"

text \<open>
  \<open>_connect\<close>: open the source; when it is not opened, \<open>ConnectionError\<close> is raised, the
  handler clears \<open>is_connected\<close> and re-raises. On success the attempt counter is reset.
\<close>

definition connect :: "bool \<Rightarrow> RTSPReader \<Rightarrow> (error + unit) \<times> RTSPReader" where
  "connect is_opened r =
     (let r1 = r\<lparr>capture := Some is_opened, connect_calls := Suc (connect_calls r)\<rparr>
      in if \<not> is_opened
         then (Inl (ConnectionError (''Failed to open stream: '' @ url r)),
               r1\<lparr>is_connected := False\<rparr>)
         else (Inr (), r1\<lparr>is_connected := True, reconnect_attempts := 0\<rparr>))"

definition disconnect :: "RTSPReader \<Rightarrow> RTSPReader" where
  "disconnect r = r\<lparr>capture := None, is_connected := False\<rparr>"

text \<open>\<open>start\<close> lets the error of \<open>_connect\<close> through; \<open>stop\<close> never fails.\<close>

definition reader_start :: "bool \<Rightarrow> RTSPReader \<Rightarrow> (error + unit) \<times> RTSPReader" where
  "reader_start is_opened r = connect is_opened (r\<lparr>reader_is_running := True\<rparr>)"

definition reader_stop :: "RTSPReader \<Rightarrow> RTSPReader" where
  "reader_stop r = disconnect (r\<lparr>reader_is_running := False\<rparr>)"

text \<open>
  \<open>_reconnect\<close>: refuse once the budget is used up; otherwise count the attempt,
  disconnect, sleep, and connect, turning the error of \<open>_connect\<close> into \<open>False\<close>.
\<close>

definition reconnect :: "bool \<Rightarrow> RTSPReader \<Rightarrow> bool \<times> RTSPReader" where
  "reconnect is_opened r =
     (if reconnect_attempts r \<ge> max_reconnect_attempts r then (False, r)
      else let r1 = r\<lparr>reconnect_attempts := reconnect_attempts r + 1\<rparr>;
               r2 = disconnect r1
           in case connect is_opened r2 of
                (Inr _, r3) \<Rightarrow> (True, r3)
              | (Inl _, r3) \<Rightarrow> (False, r3))"

definition read_frame :: "env \<Rightarrow> RTSPReader \<Rightarrow> frame option \<times> RTSPReader" where
  "read_frame e r =
     (if \<not> is_connected r \<or> capture r = None
      then (None, if reader_is_running r then snd (reconnect (opened e) r) else r)
      else case grabbed e of
             None \<Rightarrow> (None, r\<lparr>is_connected := False\<rparr>)
           | Some f \<Rightarrow>
               (Some f,
                r\<lparr>total_frames := total_frames r + 1,
                  fps_counter := tick (now e) (fps_counter r),
                  latency_tracker := add_sample (read_time_ms e) (latency_tracker r)\<rparr>))"

definition get_current_fps :: "RTSPReader \<Rightarrow> real" where
  "get_current_fps r = get_fps (fps_counter r)"

definition get_average_latency :: "RTSPReader \<Rightarrow> real" where
  "get_average_latency r = get_average (latency_tracker r)"

text \<open>Runs of reader calls against a list of answers of the outside world.\<close>

definition reconnects :: "bool list \<Rightarrow> RTSPReader \<Rightarrow> RTSPReader" where
  "reconnects answers r = foldl (\<lambda>acc b. snd (reconnect b acc)) r answers"

definition read_frames :: "env list \<Rightarrow> RTSPReader \<Rightarrow> RTSPReader" where
  "read_frames es r = foldl (\<lambda>acc e. snd (read_frame e acc)) r es"

section \<open>The event loop\<close>

text \<open>
  \<open>asyncio\<close> tasks are entries of the event loop. A task handle is the position of the
  entry; \<open>create_task\<close> adds a running entry; cancelling a task and awaiting it leaves
  the entry finished. A coroutine call of the manager or of the bus that no other call
  overlaps is one step of the model; the one point at which \<open>stop_stream\<close> and
  \<open>start_stream\<close> can be suspended, the \<open>await\<close> of the cancelled capture task, is
  modelled separately below.
\<close>

datatype coroutine = StreamLoop | ProcessFrames

record task =
  coro :: coroutine
  task_session :: string
  finished :: bool

type_synonym event_loop = "task list"

definition create_task :: "coroutine \<Rightarrow> string \<Rightarrow> event_loop \<Rightarrow> nat \<times> event_loop" where
  "create_task c sid loop =
     (length loop, loop @ [\<lparr>coro = c, task_session = sid, finished = False\<rparr>])"

definition cancel_and_await :: "nat \<Rightarrow> event_loop \<Rightarrow> event_loop" where
  "cancel_and_await h loop =
     (if h < length loop then loop[h := (loop ! h)\<lparr>finished := True\<rparr>] else loop)"

text \<open>The handles of the tasks of one coroutine and one session that have not finished.\<close>

definition live_tasks :: "coroutine \<Rightarrow> string \<Rightarrow> event_loop \<Rightarrow> nat list" where
  "live_tasks c sid loop =
     filter (\<lambda>h. coro (loop ! h) = c \<and> task_session (loop ! h) = sid \<and> \<not> finished (loop ! h))
       [0..<length loop]"

section \<open>FrameBus (backend/streaming/frame_bus.py)\<close>

subsection \<open>asyncio.Queue\<close>

text \<open>
  A queue with \<open>maxsize \<le> 0\<close> is unbounded. \<open>get_nowait\<close> and \<open>put_nowait\<close> return
  \<open>None\<close> where the library raises \<open>QueueEmpty\<close> and \<open>QueueFull\<close>.
\<close>

record Queue =
  maxsize :: int
  items :: "(int \<times> frame) list"

definition Queue_init :: "int \<Rightarrow> Queue" where
  "Queue_init n = \<lparr>maxsize = n, items = []\<rparr>"

definition full :: "Queue \<Rightarrow> bool" where
  "full q = (if maxsize q \<le> 0 then False else int (length (items q)) \<ge> maxsize q)"

definition get_nowait :: "Queue \<Rightarrow> ((int \<times> frame) \<times> Queue) option" where
  "get_nowait q = (case items q of [] \<Rightarrow> None | x # xs \<Rightarrow> Some (x, q\<lparr>items := xs\<rparr>))"

definition put_nowait :: "int \<times> frame \<Rightarrow> Queue \<Rightarrow> Queue option" where
  "put_nowait x q = (if full q then None else Some (q\<lparr>items := items q @ [x]\<rparr>))"

subsection \<open>The bus\<close>

text \<open>
  The fields of the class, and \<open>publish_log\<close>, a ghost field: the session and the sequence
  number of every call of \<open>publish_frame\<close>, oldest first; no code path reads it.
\<close>

record FrameBus =
  max_queue_size :: int
  frame_queues :: "string \<rightharpoonup> Queue"
  bus_is_running :: bool
  processing_tasks :: "string \<rightharpoonup> nat"
  publish_log :: "(string \<times> int) list"

definition FrameBus_init :: "int \<Rightarrow> FrameBus" where
  "FrameBus_init n =
     \<lparr>max_queue_size = n, frame_queues = Map.empty, bus_is_running = False,
      processing_tasks = Map.empty, publish_log = []\<rparr>"

definition bus_start :: "FrameBus \<Rightarrow> FrameBus" where
  "bus_start bus = bus\<lparr>bus_is_running := True\<rparr>"

text \<open>
  The body of \<open>publish_frame\<close> after the queue has been looked up: drop the oldest entry
  of a full queue (\<open>QueueEmpty\<close> is passed over), then put the new entry; \<open>QueueFull\<close>
  is logged and the entry is lost.
\<close>

definition enqueue_latest :: "int \<times> frame \<Rightarrow> Queue \<Rightarrow> Queue" where
  "enqueue_latest x queue =
     (let q1 = (if full queue
                then (case get_nowait queue of None \<Rightarrow> queue | Some (_, q') \<Rightarrow> q')
                else queue)
      in case put_nowait x q1 of None \<Rightarrow> q1 | Some q2 \<Rightarrow> q2)"

definition publish_frame ::
  "string \<Rightarrow> int \<Rightarrow> frame \<Rightarrow> event_loop \<times> FrameBus \<Rightarrow> event_loop \<times> FrameBus"
where
  "publish_frame sid frame_id fr w =
     (let (loop, bus0) = w;
          bus = bus0\<lparr>publish_log := publish_log bus0 @ [(sid, frame_id)]\<rparr>;
          (loop1, bus1) =
            (if frame_queues bus sid = None
             then let (h, loop') = create_task ProcessFrames sid loop
                  in (loop',
                      bus\<lparr>frame_queues := (frame_queues bus)(sid \<mapsto> Queue_init (max_queue_size bus)),
                          processing_tasks := (processing_tasks bus)(sid \<mapsto> h)\<rparr>)
             else (loop, bus))
      in case frame_queues bus1 sid of
           None \<Rightarrow> (loop1, bus1)
         | Some queue \<Rightarrow>
             (loop1,
              bus1\<lparr>frame_queues := (frame_queues bus1)(sid \<mapsto> enqueue_latest (frame_id, fr) queue)\<rparr>))"

definition unsubscribe :: "string \<Rightarrow> event_loop \<times> FrameBus \<Rightarrow> event_loop \<times> FrameBus" where
  "unsubscribe sid w =
     (let (loop, bus) = w;
          (loop1, bus1) =
            (case processing_tasks bus sid of
               Some h \<Rightarrow>
                 (cancel_and_await h loop,
                  bus\<lparr>processing_tasks := (processing_tasks bus)(sid := None)\<rparr>)
             | None \<Rightarrow> (loop, bus))
      in (loop1, bus1\<lparr>frame_queues := (frame_queues bus1)(sid := None)\<rparr>))"

text \<open>A run of publishes for one session, nothing else running in between.\<close>

definition publish_all ::
  "string \<Rightarrow> (int \<times> frame) list \<Rightarrow> event_loop \<times> FrameBus \<Rightarrow> event_loop \<times> FrameBus"
where
  "publish_all sid xs w = foldl (\<lambda>acc x. publish_frame sid (fst x) (snd x) acc) w xs"

section \<open>StreamManager (backend/streaming/stream_manager.py)\<close>

text \<open>
  The camera configuration dictionary, with the keys the manager reads; \<open>None\<close> is a
  missing key.
\<close>

record camera_config =
  camera_type :: "string option"
  cfg_url :: "string option"
  cfg_fps :: "int option"
  cfg_username :: "string option"
  cfg_password :: "string option"

record StreamMetrics =
  metrics_fps :: real
  latency_ms :: real
  metrics_dropped_frames :: int
  metrics_total_frames :: int

text \<open>
  The fields of the class, and \<open>retired\<close>: the reader objects that the registry no longer
  refers to, each in the state in which \<open>stop_stream\<close> left it, oldest first. No code path
  reads it; it keeps the replaced readers of a session observable.
\<close>

record StreamManager =
  streams :: "string \<rightharpoonup> RTSPReader"
  stream_tasks :: "string \<rightharpoonup> nat"
  frame_bus :: FrameBus
  is_running :: bool
  total_frames_processed :: int
  retired :: "RTSPReader list"

type_synonym world = "event_loop \<times> StreamManager"

definition StreamManager_init :: StreamManager where
  "StreamManager_init =
     \<lparr>streams = Map.empty, stream_tasks = Map.empty, frame_bus = FrameBus_init 2,
      is_running = False, total_frames_processed = 0, retired = []\<rparr>"

definition manager_start :: "StreamManager \<Rightarrow> StreamManager" where
  "manager_start m = m\<lparr>is_running := True, frame_bus := bus_start (frame_bus m)\<rparr>"

definition stop_stream :: "string \<Rightarrow> world \<Rightarrow> (error + unit) \<times> world" where
  "stop_stream sid w =
     (let (loop, m) = w
      in case streams m sid of
           None \<Rightarrow> (Inl (ValueError (''Stream '' @ sid @ '' not found'')), w)
         | Some reader \<Rightarrow>
             let (loop1, m1) =
                   (case stream_tasks m sid of
                      Some h \<Rightarrow>
                        (cancel_and_await h loop,
                         m\<lparr>stream_tasks := (stream_tasks m)(sid := None)\<rparr>)
                    | None \<Rightarrow> (loop, m));
                 m2 = m1\<lparr>streams := (streams m1)(sid \<mapsto> reader_stop reader)\<rparr>
             in (Inr (),
                 (loop1, m2\<lparr>streams := (streams m2)(sid := None),
                            retired := retired m2 @ [reader_stop reader]\<rparr>)))"


text \<open>The reader that \<open>start_stream\<close> constructs, or the \<open>ValueError\<close> it raises.\<close>

definition make_reader :: "string \<Rightarrow> camera_config \<Rightarrow> error + RTSPReader" where
  "make_reader sid cfg =
     (let ctype = (case camera_type cfg of None \<Rightarrow> ''webcam'' | Some t \<Rightarrow> t);
          f = (case cfg_fps cfg of None \<Rightarrow> 30 | Some n \<Rightarrow> n)
      in if ctype \<in> set [''rtsp'', ''http'']
         then (case cfg_url cfg of
                 None \<Rightarrow> Inl (ValueError (ctype @ '' camera requires URL''))
               | Some u \<Rightarrow>
                   if u = [] then Inl (ValueError (ctype @ '' camera requires URL''))
                   else Inr (RTSPReader_init sid u f (cfg_username cfg) (cfg_password cfg)
                               False 2 10))
         else if ctype = ''webcam''
         then Inr (RTSPReader_init sid ''0'' f None None True 2 10)
         else Inl (ValueError (''Unsupported camera type: '' @ ctype)))"

text \<open>
  \<open>start_stream\<close> from the line after the call of \<open>stop_stream\<close>: construct the reader,
  register it, create the capture task and register it.
\<close>

definition start_stream_tail ::
  "string \<Rightarrow> camera_config \<Rightarrow> world \<Rightarrow> (error + unit) \<times> world"
where
  "start_stream_tail sid cfg w0 =
     (case make_reader sid cfg of
        Inl e \<Rightarrow> (Inl e, w0)
      | Inr reader \<Rightarrow>
          let (loop, m) = w0;
              m1 = m\<lparr>streams := (streams m)(sid \<mapsto> reader)\<rparr>;
              (h, loop1) = create_task StreamLoop sid loop
          in (Inr (), (loop1, m1\<lparr>stream_tasks := (stream_tasks m1)(sid \<mapsto> h)\<rparr>)))"

definition start_stream :: "string \<Rightarrow> camera_config \<Rightarrow> world \<Rightarrow> (error + unit) \<times> world" where
  "start_stream sid cfg w =
     (case (if streams (snd w) sid \<noteq> None then stop_stream sid w else (Inr (), w)) of
        (Inl e, w0) \<Rightarrow> (Inl e, w0)
      | (Inr _, w0) \<Rightarrow> start_stream_tail sid cfg w0)"

subsection \<open>The suspension point of \<open>stop_stream\<close>\<close>

text \<open>
  \<open>stop_stream\<close> awaits the capture task it has cancelled. When the task has already
  finished, the \<open>await\<close> returns at once; otherwise the call is suspended until the task
  has unwound, and other calls of the manager can run in between. A call is therefore two
  steps: up to the \<open>await\<close>, and from the line after it. In the second step
  \<open>del self.stream_tasks[session_id]\<close> and \<open>self.streams[session_id]\<close> raise
  \<open>KeyError\<close> when another call has removed the entry in the meantime.
\<close>

datatype call = Returned "error + unit" world | Suspended world


text \<open>The last three lines of \<open>stop_stream\<close>: look the reader up, stop it, delete the entry.\<close>

definition stop_stream_release :: "string \<Rightarrow> world \<Rightarrow> (error + unit) \<times> world" where
  "stop_stream_release sid w =
     (let (loop, m) = w
      in case streams m sid of
           None \<Rightarrow> (Inl (KeyError sid), w)
         | Some reader \<Rightarrow>
             let m2 = m\<lparr>streams := (streams m)(sid \<mapsto> reader_stop reader)\<rparr>
             in (Inr (),
                 (loop, m2\<lparr>streams := (streams m2)(sid := None),
                           retired := retired m2 @ [reader_stop reader]\<rparr>)))"

text \<open>From the line after the \<open>await\<close>: delete the task entry, then release the reader.\<close>

definition stop_stream_resume :: "string \<Rightarrow> world \<Rightarrow> (error + unit) \<times> world" where
  "stop_stream_resume sid w =
     (let (loop, m) = w
      in case stream_tasks m sid of
           None \<Rightarrow> (Inl (KeyError sid), w)
         | Some _ \<Rightarrow>
             stop_stream_release sid (loop, m\<lparr>stream_tasks := (stream_tasks m)(sid := None)\<rparr>))"

text \<open>
  Up to the \<open>await\<close>. The cancelled task unwinds while the caller is suspended; the model
  lets it finish at once and leaves the caller suspended.
\<close>

definition stop_stream_enter :: "string \<Rightarrow> world \<Rightarrow> call" where
  "stop_stream_enter sid w =
     (let (loop, m) = w
      in case streams m sid of
           None \<Rightarrow> Returned (Inl (ValueError (''Stream '' @ sid @ '' not found''))) w
         | Some _ \<Rightarrow>
             (case stream_tasks m sid of
                None \<Rightarrow>
                  (case stop_stream_release sid w of (res, w1) \<Rightarrow> Returned res w1)
              | Some h \<Rightarrow>
                  if h < length loop \<and> finished (loop ! h)
                  then (case stop_stream_resume sid (cancel_and_await h loop, m) of
                          (res, w1) \<Rightarrow> Returned res w1)
                  else Suspended (cancel_and_await h loop, m)))"

definition start_stream_enter :: "string \<Rightarrow> camera_config \<Rightarrow> world \<Rightarrow> call" where
  "start_stream_enter sid cfg w =
     (if streams (snd w) sid \<noteq> None
      then (case stop_stream_enter sid w of
              Returned (Inl e) w0 \<Rightarrow> Returned (Inl e) w0
            | Returned (Inr _) w0 \<Rightarrow>
                (case start_stream_tail sid cfg w0 of (res, w1) \<Rightarrow> Returned res w1)
            | Suspended w0 \<Rightarrow> Suspended w0)
      else (case start_stream_tail sid cfg w of (res, w1) \<Rightarrow> Returned res w1))"

definition start_stream_resume ::
  "string \<Rightarrow> camera_config \<Rightarrow> world \<Rightarrow> (error + unit) \<times> world"
where
  "start_stream_resume sid cfg w =
     (case stop_stream_resume sid w of
        (Inl e, w0) \<Rightarrow> (Inl e, w0)
      | (Inr _, w0) \<Rightarrow> start_stream_tail sid cfg w0)"

text \<open>
  Two calls of \<open>start_stream\<close> for one session, the second made while the first is
  suspended and returning before the first is resumed (the cancelled task has finished by
  then, so the second call is not suspended). The results of the first and of the second
  call, and the state after both have returned.
\<close>

definition start_stream_overlapped ::
  "string \<Rightarrow> camera_config \<Rightarrow> camera_config \<Rightarrow> world
     \<Rightarrow> (error + unit) \<times> (error + unit) \<times> world"
where
  "start_stream_overlapped sid cfg_a cfg_b w =
     (case start_stream_enter sid cfg_a w of
        Returned res_a w1 \<Rightarrow>
          (case start_stream sid cfg_b w1 of (res_b, w2) \<Rightarrow> (res_a, res_b, w2))
      | Suspended w1 \<Rightarrow>
          (case start_stream sid cfg_b w1 of
             (res_b, w2) \<Rightarrow>
               (case start_stream_resume sid cfg_a w2 of (res_a, w3) \<Rightarrow> (res_a, res_b, w3))))"

subsection \<open>The capture loop\<close>

text \<open>
  The local state of one run of \<open>_stream_loop\<close>: the variable \<open>frame_id\<close>, and whether
  the loop is still running. The reader of the loop is the object registered under the
  session: \<open>stop_stream\<close> cancels the task before it removes the entry, so the loop is
  written on the registry entry.
\<close>

record loop_state =
  frame_id :: int
  alive :: bool

definition end_task :: "string \<Rightarrow> world \<Rightarrow> world" where
  "end_task sid w =
     (case stream_tasks (snd w) sid of
        Some h \<Rightarrow> (cancel_and_await h (fst w), snd w)
      | None \<Rightarrow> w)"

text \<open>
  Entering the loop: \<open>reader.start()\<close>; an error is caught by the handler of the loop,
  which logs it and lets the task end.
\<close>

definition stream_loop_begin :: "string \<Rightarrow> bool \<Rightarrow> world \<Rightarrow> world \<times> loop_state" where
  "stream_loop_begin sid is_opened w =
     (let (loop, m) = w
      in case streams m sid of
           None \<Rightarrow> (w, \<lparr>frame_id = 0, alive = False\<rparr>)
         | Some reader \<Rightarrow>
             (case reader_start is_opened reader of
                (Inl _, r1) \<Rightarrow>
                  (end_task sid (loop, m\<lparr>streams := (streams m)(sid \<mapsto> r1)\<rparr>),
                   \<lparr>frame_id = 0, alive = False\<rparr>)
              | (Inr _, r1) \<Rightarrow>
                  ((loop, m\<lparr>streams := (streams m)(sid \<mapsto> r1)\<rparr>),
                   \<lparr>frame_id = 0, alive = True\<rparr>)))"

text \<open>
  One pass through the body of the \<open>while\<close>. The loop ends when the manager is not
  running, and when the pacing delay \<open>1.0 / reader.fps\<close> divides by zero (the handler
  catches the error after the frame has been published).
\<close>

definition stream_loop_iter :: "string \<Rightarrow> env \<Rightarrow> world \<times> loop_state \<Rightarrow> world \<times> loop_state" where
  "stream_loop_iter sid e ws =
     (let ((loop, m), st) = ws
      in if \<not> alive st then ws
         else if \<not> is_running m then (end_task sid (loop, m), st\<lparr>alive := False\<rparr>)
         else case streams m sid of
                None \<Rightarrow> ws
              | Some reader \<Rightarrow>
                  (case read_frame e reader of
                     (None, r1) \<Rightarrow> ((loop, m\<lparr>streams := (streams m)(sid \<mapsto> r1)\<rparr>), st)
                   | (Some fr, r1) \<Rightarrow>
                       let m1 = m\<lparr>streams := (streams m)(sid \<mapsto> r1)\<rparr>;
                           st1 = st\<lparr>frame_id := frame_id st + 1\<rparr>;
                           (loop2, bus2) = publish_frame sid (frame_id st1) fr (loop, frame_bus m1);
                           m2 = m1\<lparr>frame_bus := bus2,
                                  total_frames_processed := total_frames_processed m1 + 1\<rparr>
                       in if fps r1 = 0
                          then (end_task sid (loop2, m2), st1\<lparr>alive := False\<rparr>)
                          else ((loop2, m2), st1)))"

definition stream_loop_run :: "string \<Rightarrow> env list \<Rightarrow> world \<times> loop_state \<Rightarrow> world \<times> loop_state" where
  "stream_loop_run sid es ws = foldl (\<lambda>acc e. stream_loop_iter sid e acc) ws es"

definition get_stream_metrics :: "string \<Rightarrow> StreamManager \<Rightarrow> StreamMetrics option" where
  "get_stream_metrics sid m =
     (case streams m sid of
        None \<Rightarrow> None
      | Some reader \<Rightarrow>
          Some \<lparr>metrics_fps = get_current_fps reader,
                latency_ms = get_average_latency reader,
                metrics_dropped_frames = dropped_frames reader,
                metrics_total_frames = total_frames reader\<rparr>)"

text \<open>A reader that holds nothing: no capture object, not connected, not running.\<close>

definition released :: "RTSPReader \<Rightarrow> bool" where
  "released r = (capture r = None \<and> \<not> is_connected r \<and> \<not> reader_is_running r)"


text \<open>
  The consistency of the registry with the event loop: every capture task that has not
  finished is the one registered for its session, every registered task belongs to a
  registered reader, every distribution task that has not finished is the one the bus
  holds for its session, and every retired reader is released.
\<close>

definition registry_ok :: "world \<Rightarrow> bool" where
  "registry_ok w =
     ((\<forall>h < length (fst w). coro (fst w ! h) = StreamLoop \<and> \<not> finished (fst w ! h)
          \<longrightarrow> stream_tasks (snd w) (task_session (fst w ! h)) = Some h)
      \<and> (\<forall>h < length (fst w). coro (fst w ! h) = ProcessFrames \<and> \<not> finished (fst w ! h)
          \<longrightarrow> processing_tasks (frame_bus (snd w)) (task_session (fst w ! h)) = Some h)
      \<and> (\<forall>sid. stream_tasks (snd w) sid \<noteq> None \<longrightarrow> streams (snd w) sid \<noteq> None)
      \<and> (\<forall>sid. processing_tasks (frame_bus (snd w)) sid \<noteq> None
          \<longrightarrow> frame_queues (frame_bus (snd w)) sid \<noteq> None)
      \<and> (\<forall>r \<in> set (retired (snd w)). released r))"

text \<open>A queue that is unbounded or within its capacity.\<close>

definition queue_ok :: "Queue \<Rightarrow> bool" where
  "queue_ok q = (maxsize q \<le> 0 \<or> int (length (items q)) \<le> maxsize q)"

text \<open>The calls of \<open>publish_frame\<close> made after the state \<open>w0\<close>, up to the state \<open>w1\<close>.\<close>

definition run_log :: "world \<Rightarrow> world \<Rightarrow> (string \<times> int) list" where
  "run_log w0 w1 =
     drop (length (publish_log (frame_bus (snd w0)))) (publish_log (frame_bus (snd w1)))"

text \<open>
  The invariant of one capture loop that began with the log of the bus at \<open>log0\<close> and the
  frame counter of the reader at \<open>t0\<close>: the calls of \<open>publish_frame\<close> since then are those
  of the session with the sequence numbers \<open>1\<close> to \<open>frame_id\<close>, in this order, and the
  reader has counted as many frames since.
\<close>

definition loop_inv :: "string \<Rightarrow> (string \<times> int) list \<Rightarrow> int \<Rightarrow> world \<times> loop_state \<Rightarrow> bool" where
  "loop_inv sid log0 t0 ws =
     (0 \<le> frame_id (snd ws)
      \<and> publish_log (frame_bus (snd (fst ws)))
            = log0 @ map (\<lambda>n. (sid, n)) [1..frame_id (snd ws)]
      \<and> (\<exists>r. streams (snd (fst ws)) sid = Some r
              \<and> total_frames r = t0 + frame_id (snd ws)))"

section \<open>Properties of the reader\<close>

lemma reconnect_calls_fail:
  "connect_calls (snd (reconnect False r)) =
     (if reconnect_attempts r \<ge> max_reconnect_attempts r then connect_calls r else Suc (connect_calls r))"
  by (simp add: reconnect_def connect_def disconnect_def Let_def)

lemma reconnect_fail_attempts:
  "reconnect_attempts (snd (reconnect False r)) =
     (if reconnect_attempts r \<ge> max_reconnect_attempts r then reconnect_attempts r else reconnect_attempts r + 1)"
  by (simp add: reconnect_def connect_def disconnect_def Let_def)

lemma reconnect_max: "max_reconnect_attempts (snd (reconnect b r)) = max_reconnect_attempts r"
  by (simp add: reconnect_def connect_def disconnect_def Let_def)

lemma reconnects_fail_calls:
  "\<forall>b \<in> set answers. \<not> b \<Longrightarrow> 0 \<le> reconnect_attempts r \<Longrightarrow>
   connect_calls (reconnects answers r) =
     connect_calls r + min (length answers) (nat (max_reconnect_attempts r - reconnect_attempts r))
   \<and> reconnect_attempts (reconnects answers r) = 
      (if max_reconnect_attempts r \<le> reconnect_attempts r then reconnect_attempts r 
    else min (reconnect_attempts r + int (length answers)) (max_reconnect_attempts r))
   \<and> max_reconnect_attempts (reconnects answers r) = max_reconnect_attempts r"
proof (induction answers arbitrary: r)
  case Nil
  then show ?case by (simp add: reconnects_def)
next
  case (Cons b bs)
  have b: "\<not> b" using Cons.prems by simp
  let ?r1 = "snd (reconnect False r)"
  have step: "reconnects (b # bs) r = reconnects bs ?r1"
    using b by (simp add: reconnects_def)
  have ih: "connect_calls (reconnects bs ?r1) =
     connect_calls ?r1 + min (length bs) (nat (max_reconnect_attempts ?r1 - reconnect_attempts ?r1))
   \<and> reconnect_attempts (reconnects bs ?r1) = 
      (if max_reconnect_attempts ?r1 \<le> reconnect_attempts ?r1 then reconnect_attempts ?r1 
    else min (reconnect_attempts ?r1 + int (length bs)) (max_reconnect_attempts ?r1))
   \<and> max_reconnect_attempts (reconnects bs ?r1) = max_reconnect_attempts ?r1"
    using Cons.prems by (intro Cons.IH) (auto simp: reconnect_fail_attempts)
  show ?case
    unfolding step using ih Cons.prems(2)
    by (auto simp: reconnect_calls_fail reconnect_fail_attempts reconnect_max min_def)
qed

lemma reconnect_exhausted:
  "max_reconnect_attempts r \<le> reconnect_attempts r \<Longrightarrow> reconnect b r = (False, r)"
  by (simp add: reconnect_def)

lemma reconnects_exhausted:
  "max_reconnect_attempts r \<le> reconnect_attempts r \<Longrightarrow> reconnects answers r = r"
  by (induction answers) (simp_all add: reconnects_def reconnect_exhausted)

lemma read_frame_exhausted:
  "max_reconnect_attempts r \<le> reconnect_attempts r \<Longrightarrow>
   connect_calls (snd (read_frame e r)) = connect_calls r
   \<and> reconnect_attempts (snd (read_frame e r)) = reconnect_attempts r
   \<and> max_reconnect_attempts (snd (read_frame e r)) = max_reconnect_attempts r"
  by (simp add: read_frame_def reconnect_exhausted split: option.splits)

lemma read_frames_exhausted:
  "max_reconnect_attempts r \<le> reconnect_attempts r \<Longrightarrow>
   connect_calls (read_frames es r) = connect_calls r"
proof (induction es arbitrary: r)
  case Nil
  then show ?case by (simp add: read_frames_def)
next
  case (Cons e es)
  have "read_frames (e # es) r = read_frames es (snd (read_frame e r))"
    by (simp add: read_frames_def)
  moreover have "connect_calls (read_frames es (snd (read_frame e r))) = connect_calls (snd (read_frame e r))"
    using Cons.prems by (intro Cons.IH) (simp add: read_frame_exhausted)
  ultimately show ?case using Cons.prems by (simp add: read_frame_exhausted)
qed

lemma connect_success_resets:
  "reconnect_attempts (snd (connect True r)) = 0 \<and> is_connected (snd (connect True r))"
  by (simp add: connect_def Let_def)

lemma reconnect_success_resets:
  "reconnect_attempts r < max_reconnect_attempts r \<Longrightarrow>
   reconnect True r = (True, snd (reconnect True r)) \<and> reconnect_attempts (snd (reconnect True r)) = 0 \<and> is_connected (snd (reconnect True r))
   \<and> connect_calls (snd (reconnect True r)) = Suc (connect_calls r)"
  by (simp add: reconnect_def connect_def disconnect_def Let_def)

text \<open>
  Claim C3. A reader configured with \<open>max_reconnect_attempts = M\<close> (a count, \<open>0 \<le> M\<close>)
  whose attempt counter is at zero (a new reader, or one that has just connected) makes at
  most \<open>M\<close> connect attempts in any run of failing \<open>_reconnect\<close> calls; once \<open>M\<close> of them
  have failed, no later \<open>_reconnect\<close> or \<open>read_frame\<close> call makes a connect attempt,
  whatever the source would answer; a successful connect sets the counter back to zero, also
  after fewer than \<open>M\<close> failures; and with \<open>M = 3\<close> and a source that always fails, three
  or more \<open>_reconnect\<close> calls make exactly three connect attempts.
\<close>

theorem reconnect_budget:
  assumes M: "max_reconnect_attempts r = M" and M0: "0 \<le> M"
    and fresh: "reconnect_attempts r = 0"
    and failing: "\<forall>b \<in> set failing. \<not> b"
    and fewer: "\<forall>b \<in> set fewer. \<not> b"
  shows "int (connect_calls (reconnects failing r)) \<le> int (connect_calls r) + M
    \<and> (M \<le> int (length failing) \<longrightarrow>
           (\<forall>answers. connect_calls (reconnects answers (reconnects failing r))
                        = connect_calls (reconnects failing r))
         \<and> (\<forall>es. connect_calls (read_frames es (reconnects failing r))
                        = connect_calls (reconnects failing r)))
    \<and> reconnect_attempts (snd (connect True r')) = 0
    \<and> (int (length fewer) < M \<longrightarrow>
           fst (reconnect True (reconnects fewer r))
         \<and> reconnect_attempts (snd (reconnect True (reconnects fewer r))) = 0)
    \<and> (M = 3 \<and> 3 \<le> length failing \<longrightarrow>
           connect_calls (reconnects failing r) = connect_calls r + 3)"
proof -
  have key: "connect_calls (reconnects failing r) =
       connect_calls r + min (length failing) (nat (max_reconnect_attempts r - reconnect_attempts r))
     \<and> reconnect_attempts (reconnects failing r) =
       (if max_reconnect_attempts r \<le> reconnect_attempts r then reconnect_attempts r
        else min (reconnect_attempts r + int (length failing)) (max_reconnect_attempts r))
     \<and> max_reconnect_attempts (reconnects failing r) = max_reconnect_attempts r"
    using failing fresh by (intro reconnects_fail_calls) simp_all
  have key': "reconnect_attempts (reconnects fewer r) =
       (if max_reconnect_attempts r \<le> reconnect_attempts r then reconnect_attempts r
        else min (reconnect_attempts r + int (length fewer)) (max_reconnect_attempts r))
     \<and> max_reconnect_attempts (reconnects fewer r) = max_reconnect_attempts r"
    using reconnects_fail_calls [of fewer r] fewer fresh by simp
  have c2: "connect_calls (reconnects failing r) = connect_calls r + min (length failing) (nat M)"
    using key M fresh by simp
  have a: "int (connect_calls (reconnects failing r)) \<le> int (connect_calls r) + M"
    using c2 M0 by (simp add: min_def) linarith
  have b: "M \<le> int (length failing) \<longrightarrow>
           (\<forall>answers. connect_calls (reconnects answers (reconnects failing r))
                        = connect_calls (reconnects failing r))
         \<and> (\<forall>es. connect_calls (read_frames es (reconnects failing r))
                        = connect_calls (reconnects failing r))"
  proof
    assume len: "M \<le> int (length failing)"
    have ex: "max_reconnect_attempts (reconnects failing r) \<le> reconnect_attempts (reconnects failing r)"
      using key M M0 fresh len by (simp add: min_def)
    show "(\<forall>answers. connect_calls (reconnects answers (reconnects failing r))
                        = connect_calls (reconnects failing r))
         \<and> (\<forall>es. connect_calls (read_frames es (reconnects failing r))
                        = connect_calls (reconnects failing r))"
      using ex by (simp add: reconnects_exhausted read_frames_exhausted)
  qed
  have c: "reconnect_attempts (snd (connect True r')) = 0"
    by (simp add: connect_success_resets)
  have d: "int (length fewer) < M \<longrightarrow>
           fst (reconnect True (reconnects fewer r))
         \<and> reconnect_attempts (snd (reconnect True (reconnects fewer r))) = 0"
  proof
    assume len: "int (length fewer) < M"
    have "reconnect_attempts (reconnects fewer r) < max_reconnect_attempts (reconnects fewer r)"
      using key' M fresh len by (simp add: min_def)
    then show "fst (reconnect True (reconnects fewer r))
         \<and> reconnect_attempts (snd (reconnect True (reconnects fewer r))) = 0"
      using reconnect_success_resets [of "reconnects fewer r"] by (metis fst_conv)
  qed
  have e: "M = 3 \<and> 3 \<le> length failing \<longrightarrow>
           connect_calls (reconnects failing r) = connect_calls r + 3"
    using c2 by (auto simp: min_def)
  show ?thesis using a b c d e by blast
qed

theorem reconnect_budget_witness:
  "connect_calls (reconnects [False, False, False, False, False]
      (RTSPReader_init ''s'' ''rtsp://cam'' 30 None None False 0 3)) = 3
   \<and> connect_calls (read_frames [\<lparr>opened = False, grabbed = None, now = 0, read_time_ms = 0\<rparr>]
        (reconnects [False, False, False, False, False]
          (RTSPReader_init ''s'' ''rtsp://cam'' 30 None None False 0 3))) = 3
   \<and> reconnect_attempts (snd (reconnect True (reconnects [False, False]
          (RTSPReader_init ''s'' ''rtsp://cam'' 30 None None False 0 3)))) = 0"
  using reconnect_budget [of "RTSPReader_init ''s'' ''rtsp://cam'' 30 None None False 0 3" 3
      "[False, False, False, False, False]" "[False, False]"]
  by (simp add: RTSPReader_init_def)

section \<open>Properties of the FPS estimator\<close>

lemma tick_window: "\<forall>t \<in> set (frame_times (tick t1 c)). t1 - window_seconds c < t"
  by (simp add: tick_def Let_def)

text \<open>
  Claim C9. Ten ticks spaced 100 ms apart, starting at any time \<open>t0\<close>, on a counter with
  the window of one second: all ten samples are kept, and \<open>get_fps\<close> divides their number
  by the span between the first and the last of them, nine intervals, so the estimate is
  \<open>10 / 0.9 = 100 / 9\<close>, about 11.1, and not about 10.
\<close>

theorem fps_ten_ticks_value:
  "get_fps (ticks (map (\<lambda>k. t0 + real k / 10) [0..<10]) (FPSCounter_init 1)) = 100 / 9"
  by (simp add: ticks_def tick_def get_fps_def FPSCounter_init_def upt_rec numeral_eq_Suc)

section \<open>Properties of the frame bus\<close>

lemma enqueue_latest_full2:
  "maxsize q = 2 \<Longrightarrow> length (items q) = 2 \<Longrightarrow>
   enqueue_latest x q = q\<lparr>items := tl (items q) @ [x]\<rparr>"
  by (cases "items q") (simp_all add: enqueue_latest_def full_def get_nowait_def put_nowait_def)

lemma enqueue_latest_room2:
  "maxsize q = 2 \<Longrightarrow> length (items q) < 2 \<Longrightarrow>
   enqueue_latest x q = q\<lparr>items := items q @ [x]\<rparr>"
  by (simp add: enqueue_latest_def full_def get_nowait_def put_nowait_def)

text \<open>
  Claim C2. On a session queue of capacity 2 holding at most two entries, \<open>publish_frame\<close>
  returns (it is a total function: nothing in it waits) with the queue holding the old
  entries, the oldest one removed exactly when the queue was full, followed by the new
  entry, which is therefore never the one dropped. Publishing the sequence numbers 1, 2, 3
  for a session of a new bus of capacity 2, with no consumer step in between, leaves the
  queue holding 2 and 3 in that order.
\<close>

theorem publish_drops_oldest:
  assumes q: "frame_queues bus sid = Some q" and cap: "maxsize q = 2"
    and len: "length (items q) \<le> 2"
  shows "publish_frame sid n fr (loop, bus) =
           (loop, bus\<lparr>frame_queues := (frame_queues bus)(sid \<mapsto>
              q\<lparr>items := (if length (items q) = 2 then tl (items q) else items q) @ [(n, fr)]\<rparr>),
              publish_log := publish_log bus @ [(sid, n)]\<rparr>)
         \<and> frame_queues (snd (publish_all sid [(1, f1), (2, f2), (3, f3)] (loop0, FrameBus_init 2))) sid
             = Some \<lparr>maxsize = 2, items = [(2, f2), (3, f3)]\<rparr>"
proof -
  have a: "publish_frame sid n fr (loop, bus) =
           (loop, bus\<lparr>frame_queues := (frame_queues bus)(sid \<mapsto>
              q\<lparr>items := (if length (items q) = 2 then tl (items q) else items q) @ [(n, fr)]\<rparr>),
              publish_log := publish_log bus @ [(sid, n)]\<rparr>)"
  proof (cases "length (items q) = 2")
    case True
    then show ?thesis using q cap
      by (simp add: publish_frame_def enqueue_latest_full2)
  next
    case False
    then have "length (items q) < 2" using len by simp
    then show ?thesis using q cap False
      by (simp add: publish_frame_def enqueue_latest_room2)
  qed
  have b: "frame_queues (snd (publish_all sid [(1, f1), (2, f2), (3, f3)] (loop0, FrameBus_init 2))) sid
             = Some \<lparr>maxsize = 2, items = [(2, f2), (3, f3)]\<rparr>"
    by (simp add: publish_all_def publish_frame_def FrameBus_init_def create_task_def
        Queue_init_def enqueue_latest_def full_def get_nowait_def put_nowait_def)
  show ?thesis using a b by blast
qed

theorem publish_drops_oldest_witness:
  "publish_frame ''s'' 3 (Frame 30)
     ([], (FrameBus_init 2)\<lparr>frame_queues :=
        [''s'' \<mapsto> \<lparr>maxsize = 2, items = [(1, Frame 10), (2, Frame 20)]\<rparr>]\<rparr>)
   = ([], (FrameBus_init 2)\<lparr>frame_queues :=
        [''s'' \<mapsto> \<lparr>maxsize = 2, items = [(2, Frame 20), (3, Frame 30)]\<rparr>],
        publish_log := [(''s'', 3)]\<rparr>)"
  using publish_drops_oldest [of "(FrameBus_init 2)\<lparr>frame_queues :=
        [''s'' \<mapsto> \<lparr>maxsize = 2, items = [(1, Frame 10), (2, Frame 20)]\<rparr>]\<rparr>" "''s''"
        "\<lparr>maxsize = 2, items = [(1, Frame 10), (2, Frame 20)]\<rparr>" 3 "Frame 30" "[]"]
  by (simp add: FrameBus_init_def)

lemma unsubscribe_no_queue:
  "frame_queues (snd (unsubscribe sid w)) sid = None
   \<and> processing_tasks (snd (unsubscribe sid w)) sid = None"
  by (cases w) (simp add: unsubscribe_def split: option.splits)

lemma enqueue_latest_empty: "enqueue_latest x (Queue_init n) = \<lparr>maxsize = n, items = [x]\<rparr>"
  by (simp add: enqueue_latest_def Queue_init_def full_def put_nowait_def get_nowait_def)

lemma publish_new_session:
  "frame_queues bus sid = None \<Longrightarrow>
   publish_frame sid n fr (loop, bus) =
     (loop @ [\<lparr>coro = ProcessFrames, task_session = sid, finished = False\<rparr>],
      bus\<lparr>frame_queues := (frame_queues bus)(sid \<mapsto> \<lparr>maxsize = max_queue_size bus, items = [(n, fr)]\<rparr>),
          processing_tasks := (processing_tasks bus)(sid \<mapsto> length loop),
          publish_log := publish_log bus @ [(sid, n)]\<rparr>)"
  by (simp add: publish_frame_def create_task_def enqueue_latest_empty)

lemma live_tasks_snoc_new:
  "length loop \<in> set (live_tasks c sid (loop @ [\<lparr>coro = c, task_session = sid, finished = False\<rparr>]))"
  by (simp add: live_tasks_def)

text \<open>
  Claim C10. \<open>publish_frame\<close> for a session that has no queue creates a queue of the
  configured capacity holding the published entry alone, and adds a running distribution
  task to the event loop, which the bus registers for the session. This is also what
  happens after \<open>unsubscribe\<close> for the same session, whatever the bus held before: the
  queue and a new running task are back.
\<close>

theorem publish_recreates_queue:
  assumes "frame_queues bus sid = None"
  shows "publish_frame sid n fr (loop, bus) =
     (loop @ [\<lparr>coro = ProcessFrames, task_session = sid, finished = False\<rparr>],
      bus\<lparr>frame_queues := (frame_queues bus)(sid \<mapsto> \<lparr>maxsize = max_queue_size bus, items = [(n, fr)]\<rparr>),
          processing_tasks := (processing_tasks bus)(sid \<mapsto> length loop),
          publish_log := publish_log bus @ [(sid, n)]\<rparr>)
    \<and> length loop \<in> set (live_tasks ProcessFrames sid (fst (publish_frame sid n fr (loop, bus))))
    \<and> frame_queues (snd (publish_frame sid n fr (unsubscribe sid w))) sid
         = Some \<lparr>maxsize = max_queue_size (snd w), items = [(n, fr)]\<rparr>
    \<and> processing_tasks (snd (publish_frame sid n fr (unsubscribe sid w))) sid = Some (length (fst w))
    \<and> length (fst w) \<in> set (live_tasks ProcessFrames sid (fst (publish_frame sid n fr (unsubscribe sid w))))"
proof -
  obtain loop1 bus1 where u: "unsubscribe sid w = (loop1, bus1)" by (cases "unsubscribe sid w")
  have none: "frame_queues bus1 sid = None" using unsubscribe_no_queue [of sid w] u by simp
  have len: "length loop1 = length (fst w)" and mq: "max_queue_size bus1 = max_queue_size (snd w)"
    using u by (cases w; auto simp: unsubscribe_def cancel_and_await_def split: option.splits)+
  have live: "length (fst w) \<in> set (live_tasks ProcessFrames sid
      (loop1 @ [\<lparr>coro = ProcessFrames, task_session = sid, finished = False\<rparr>]))"
    using live_tasks_snoc_new [of loop1 ProcessFrames sid] len by simp
  show ?thesis
    using assms none len mq live
    by (simp add: u publish_new_session live_tasks_snoc_new)
qed

theorem publish_recreates_queue_witness:
  "frame_queues (snd (publish_frame ''s'' 7 (Frame 1) ([], FrameBus_init 2))) ''s''
     = Some \<lparr>maxsize = 2, items = [(7, Frame 1)]\<rparr>
   \<and> processing_tasks (snd (publish_frame ''s'' 7 (Frame 1) ([], FrameBus_init 2))) ''s'' = Some 0"
  using publish_recreates_queue [of "FrameBus_init 2" "''s''" 7 "Frame 1" "[]"]
  by (simp add: FrameBus_init_def)

section \<open>Properties of the stream manager\<close>

lemma stop_stream_absent:
  "streams m sid = None \<Longrightarrow>
   stop_stream sid (loop, m) = (Inl (ValueError (''Stream '' @ sid @ '' not found'')), (loop, m))"
  by (simp add: stop_stream_def)

lemma stop_stream_present:
  "streams m sid = Some reader \<Longrightarrow>
   stop_stream sid (loop, m) =
     (Inr (),
      (case stream_tasks m sid of Some h \<Rightarrow> cancel_and_await h loop | None \<Rightarrow> loop),
      m\<lparr>stream_tasks := (stream_tasks m)(sid := None), streams := (streams m)(sid := None),
        retired := retired m @ [reader_stop reader]\<rparr>)"
  by (simp add: stop_stream_def fun_upd_idem split: option.splits)


lemma length_cancel_and_await [simp]: "length (cancel_and_await h loop) = length loop"
  by (simp add: cancel_and_await_def)

lemma nth_cancel_and_await:
  "k < length loop \<Longrightarrow>
   cancel_and_await h loop ! k = (if k = h then (loop ! k)\<lparr>finished := True\<rparr> else loop ! k)"
  by (simp add: cancel_and_await_def)



lemma registry_ok_initial: "registry_ok ([], StreamManager_init)"
  by (simp add: registry_ok_def StreamManager_init_def FrameBus_init_def)




lemma start_stream_fresh:
  "streams m sid = None \<Longrightarrow>
   start_stream sid cfg (loop, m) =
     (case make_reader sid cfg of
        Inl e \<Rightarrow> (Inl e, (loop, m))
      | Inr reader \<Rightarrow>
          (Inr (),
           (loop @ [\<lparr>coro = StreamLoop, task_session = sid, finished = False\<rparr>],
            m\<lparr>streams := (streams m)(sid \<mapsto> reader),
              stream_tasks := (stream_tasks m)(sid \<mapsto> length loop)\<rparr>)))"
  by (simp add: start_stream_def start_stream_tail_def create_task_def split: sum.splits)

lemma start_stream_active:
  "streams (snd w) sid \<noteq> None \<Longrightarrow>
   fst (stop_stream sid w) = Inr ()
   \<and> streams (snd (snd (stop_stream sid w))) sid = None
   \<and> start_stream sid cfg w = start_stream sid cfg (snd (stop_stream sid w))"
proof (cases w)
  case (Pair loop m)
  assume "streams (snd w) sid \<noteq> None"
  then obtain reader where r: "streams m sid = Some reader" using Pair by auto
  have s: "fst (stop_stream sid w) = Inr ()" "streams (snd (snd (stop_stream sid w))) sid = None"
    using Pair r by (simp_all add: stop_stream_present)
  obtain loop1 m1 where w1: "stop_stream sid w = (Inr (), (loop1, m1))" and n1: "streams m1 sid = None"
    using s by (cases "stop_stream sid w") auto
  have "start_stream sid cfg w = start_stream sid cfg (loop1, m1)"
    using Pair r w1 n1 by (simp add: start_stream_def)
  then show ?thesis using s w1 by simp
qed



text \<open>
  Claim C7. \<open>stop_stream\<close> for a session that is not in the registry raises the
  \<open>ValueError\<close> "Stream ... not found" (the error the specification calls UnknownSession)
  and leaves the event loop and the manager, bus included, as they were.
\<close>

theorem stop_stream_unknown_session:
  assumes "streams m sid = None"
  shows "stop_stream sid (loop, m) = (Inl (ValueError (''Stream '' @ sid @ '' not found'')), (loop, m))"
  using assms by (rule stop_stream_absent)

theorem stop_stream_unknown_session_witness:
  "stop_stream ''missing'' ([], StreamManager_init)
     = (Inl (ValueError ''Stream missing not found''), ([], StreamManager_init))"
  using stop_stream_unknown_session [of StreamManager_init "''missing''" "[]"]
  by (simp add: StreamManager_init_def)


lemma start_stream_result:
  "fst (start_stream sid cfg w) = (case make_reader sid cfg of Inl e \<Rightarrow> Inl e | Inr _ \<Rightarrow> Inr ())
   \<and> (\<forall>reader. make_reader sid cfg = Inr reader \<longrightarrow>
         streams (snd (snd (start_stream sid cfg w))) sid = Some reader)"
proof -
  have fresh: "\<And>loop m. streams m sid = None \<Longrightarrow>
      fst (start_stream sid cfg (loop, m)) = (case make_reader sid cfg of Inl e \<Rightarrow> Inl e | Inr _ \<Rightarrow> Inr ())
      \<and> (\<forall>reader. make_reader sid cfg = Inr reader \<longrightarrow>
         streams (snd (snd (start_stream sid cfg (loop, m)))) sid = Some reader)"
    by (simp add: start_stream_fresh split: sum.splits)
  show ?thesis
  proof (cases "streams (snd w) sid")
    case None
    then show ?thesis using fresh [of "snd w" "fst w"] by simp
  next
    case (Some reader)
    then have a: "streams (snd w) sid \<noteq> None" by simp
    show ?thesis
      using start_stream_active [OF a, of cfg]
        fresh [of "snd (snd (stop_stream sid w))" "fst (snd (stop_stream sid w))"]
      by simp
  qed
qed







lemma make_reader_fresh:
  "make_reader sid cfg = Inr reader \<Longrightarrow> released reader \<and> session_id reader = sid"
  by (auto simp: make_reader_def RTSPReader_init_def released_def Let_def
      split: option.splits if_splits)



section \<open>Properties of the capture loop\<close>

lemma upto_snoc: "0 \<le> n \<Longrightarrow> [1..n + 1] = [1..n] @ [n + 1]"
  by (simp add: upto_rec2)

lemma read_frame_total:
  "total_frames (snd (read_frame e r)) =
     (if fst (read_frame e r) = None then total_frames r else total_frames r + 1)
   \<and> dropped_frames (snd (read_frame e r)) = dropped_frames r
   \<and> fps (snd (read_frame e r)) = fps r"
  by (simp add: read_frame_def reconnect_def connect_def disconnect_def Let_def
      split: option.splits)

lemma end_task_streams [simp]: "snd (end_task sid w) = snd w"
  by (simp add: end_task_def split: option.splits)

lemma enqueue_latest_last:
  assumes "queue_ok q"
  shows "items (enqueue_latest x q) \<noteq> [] \<and> last (items (enqueue_latest x q)) = x
    \<and> queue_ok (enqueue_latest x q)"
proof (cases "full q")
  case False
  then show ?thesis using assms
    by (auto simp: enqueue_latest_def put_nowait_def queue_ok_def full_def split: if_splits)
next
  case True
  then obtain y ys where y: "items q = y # ys"
    by (cases "items q") (auto simp: full_def split: if_splits)
  show ?thesis using True assms y
    by (auto simp: enqueue_latest_def put_nowait_def get_nowait_def queue_ok_def full_def
        split: if_splits)
qed

lemma publish_frame_log:
  "publish_log (snd (publish_frame sid n fr (loop, bus))) = publish_log bus @ [(sid, n)]"
  by (simp add: publish_frame_def create_task_def Let_def split: option.splits prod.splits)

lemma publish_frame_newest:
  assumes "\<forall>q. frame_queues bus sid = Some q \<longrightarrow> queue_ok q"
  shows "\<exists>q. frame_queues (snd (publish_frame sid n fr (loop, bus))) sid = Some q
            \<and> last (items q) = (n, fr) \<and> queue_ok q"
proof (cases "frame_queues bus sid")
  case None
  have "queue_ok (Queue_init (max_queue_size bus))"
    by (simp add: queue_ok_def Queue_init_def) linarith
  then show ?thesis using None enqueue_latest_last [of "Queue_init (max_queue_size bus)" "(n, fr)"]
    by (simp add: publish_frame_def create_task_def)
next
  case (Some q)
  then show ?thesis using assms enqueue_latest_last [of q "(n, fr)"]
    by (simp add: publish_frame_def)
qed

lemma loop_inv_iter:
  assumes "loop_inv sid log0 t0 ws"
  shows "loop_inv sid log0 t0 (stream_loop_iter sid e ws)"
proof -
  obtain loop m st where ws: "ws = ((loop, m), st)" by (metis surj_pair)
  obtain r where r: "streams m sid = Some r" "total_frames r = t0 + frame_id st"
    and f: "0 \<le> frame_id st"
      "publish_log (frame_bus m) = log0 @ map (\<lambda>n. (sid, n)) [1..frame_id st]"
    using assms ws by (auto simp: loop_inv_def)
  obtain res r1 where rf: "read_frame e r = (res, r1)" by (cases "read_frame e r")
  have t: "total_frames r1 = (if res = None then total_frames r else total_frames r + 1)"
    using read_frame_total [of e r] rf by simp
  show ?thesis
  proof (cases "alive st \<and> is_running m")
    case False
    then show ?thesis using assms ws
      by (auto simp: stream_loop_iter_def loop_inv_def)
  next
    case True
    show ?thesis
    proof (cases res)
      case None
      then show ?thesis using True ws r f rf t
        by (simp add: stream_loop_iter_def loop_inv_def)
    next
      case (Some fr)
      obtain loop2 bus2 where p: "publish_frame sid (frame_id st + 1) fr (loop, frame_bus m) = (loop2, bus2)"
        by (cases "publish_frame sid (frame_id st + 1) fr (loop, frame_bus m)")
      have l: "publish_log bus2 = publish_log (frame_bus m) @ [(sid, frame_id st + 1)]"
        using publish_frame_log [of sid "frame_id st + 1" fr loop "frame_bus m"] p by simp
      show ?thesis using Some True ws r f rf t p l
        by (auto simp: stream_loop_iter_def loop_inv_def upto_snoc Let_def)
    qed
  qed
qed

lemma loop_inv_run:
  "loop_inv sid log0 t0 ws \<Longrightarrow> loop_inv sid log0 t0 (stream_loop_run sid es ws)"
proof (induction es arbitrary: ws)
  case Nil
  then show ?case by (simp add: stream_loop_run_def)
next
  case (Cons e es)
  have "stream_loop_run sid (e # es) ws = stream_loop_run sid es (stream_loop_iter sid e ws)"
    by (simp add: stream_loop_run_def)
  then show ?case using Cons.IH [OF loop_inv_iter [OF Cons.prems]] by simp
qed

lemma loop_inv_begin:
  "streams (snd w) sid = Some r0 \<Longrightarrow>
   loop_inv sid (publish_log (frame_bus (snd w))) (total_frames r0)
     (stream_loop_begin sid is_opened w)"
  by (cases w)
     (simp add: stream_loop_begin_def loop_inv_def reader_start_def connect_def Let_def)

lemma iter_publishes:
  assumes "alive st" and "is_running m" and "streams m sid = Some rd"
    and "\<forall>q. frame_queues (frame_bus m) sid = Some q \<longrightarrow> queue_ok q"
  shows "case fst (read_frame e rd) of
           None \<Rightarrow>
             publish_log (frame_bus (snd (fst (stream_loop_iter sid e ((loop, m), st)))))
               = publish_log (frame_bus m)
             \<and> frame_id (snd (stream_loop_iter sid e ((loop, m), st))) = frame_id st
         | Some fr \<Rightarrow>
             publish_log (frame_bus (snd (fst (stream_loop_iter sid e ((loop, m), st)))))
               = publish_log (frame_bus m) @ [(sid, frame_id st + 1)]
             \<and> frame_id (snd (stream_loop_iter sid e ((loop, m), st))) = frame_id st + 1
             \<and> (\<exists>q. frame_queues (frame_bus (snd (fst (stream_loop_iter sid e ((loop, m), st))))) sid
                      = Some q
                    \<and> last (items q) = (frame_id st + 1, fr))"
proof -
  obtain res r1 where rf: "read_frame e rd = (res, r1)" by (cases "read_frame e rd")
  show ?thesis
  proof (cases res)
    case None
    then show ?thesis using assms rf by (simp add: stream_loop_iter_def)
  next
    case (Some fr)
    obtain loop2 bus2 where p: "publish_frame sid (frame_id st + 1) fr (loop, frame_bus m) = (loop2, bus2)"
      by (cases "publish_frame sid (frame_id st + 1) fr (loop, frame_bus m)")
    have l: "publish_log bus2 = publish_log (frame_bus m) @ [(sid, frame_id st + 1)]"
      using publish_frame_log [of sid "frame_id st + 1" fr loop "frame_bus m"] p by simp
    have q: "\<exists>q. frame_queues bus2 sid = Some q \<and> last (items q) = (frame_id st + 1, fr)"
      using publish_frame_newest [OF assms(4), of "frame_id st + 1" fr loop] p by auto
    show ?thesis using Some assms(1-3) rf p l q
      by (auto simp: stream_loop_iter_def Let_def)
  qed
qed

text \<open>
  Claim C5, as amended. In one run of the capture loop of a registered session, whatever
  the source answers, the calls of \<open>publish_frame\<close> made by the run are those of the
  session with the sequence numbers \<open>1, 2, ..., frame_id\<close> in this order: they start at
  1, are strictly increasing, have no gaps and no repetition within the run, and there are
  as many of them as frames the reader has read in the run. One pass of a running loop
  whose read gives a frame calls \<open>publish_frame\<close> with the number after the last one, and
  the frame with that number is then the newest entry of the queue of the session; a pass
  whose read gives no frame publishes nothing. (A session started again numbers its frames
  from 1 again.)
\<close>

theorem capture_loop_sequence_numbers:
  assumes "streams (snd w) sid = Some r0"
  shows "publish_log (frame_bus (snd (fst (stream_loop_run sid es (stream_loop_begin sid is_opened w)))))
           = publish_log (frame_bus (snd w)) @ run_log w (fst (stream_loop_run sid es (stream_loop_begin sid is_opened w)))
    \<and> run_log w (fst (stream_loop_run sid es (stream_loop_begin sid is_opened w))) = map (\<lambda>n. (sid, n)) [1..frame_id (snd (stream_loop_run sid es (stream_loop_begin sid is_opened w)))]
    \<and> sorted_wrt (<) (map snd (run_log w (fst (stream_loop_run sid es (stream_loop_begin sid is_opened w)))))
    \<and> (\<exists>r. streams (snd (fst (stream_loop_run sid es (stream_loop_begin sid is_opened w)))) sid = Some r
           \<and> total_frames r = total_frames r0 + int (length (run_log w (fst (stream_loop_run sid es (stream_loop_begin sid is_opened w))))))
    \<and> (alive st \<and> is_running m \<and> streams m sid = Some rd
         \<and> (\<forall>q. frame_queues (frame_bus m) sid = Some q \<longrightarrow> queue_ok q) \<longrightarrow>
         (case fst (read_frame e rd) of
            None \<Rightarrow>
              publish_log (frame_bus (snd (fst (stream_loop_iter sid e ((loop, m), st)))))
                = publish_log (frame_bus m)
              \<and> frame_id (snd (stream_loop_iter sid e ((loop, m), st))) = frame_id st
          | Some fr \<Rightarrow>
              publish_log (frame_bus (snd (fst (stream_loop_iter sid e ((loop, m), st)))))
                = publish_log (frame_bus m) @ [(sid, frame_id st + 1)]
              \<and> frame_id (snd (stream_loop_iter sid e ((loop, m), st))) = frame_id st + 1
              \<and> (\<exists>q. frame_queues (frame_bus (snd (fst (stream_loop_iter sid e ((loop, m), st))))) sid
                       = Some q
                     \<and> last (items q) = (frame_id st + 1, fr))))"
proof -
  let ?run = "(stream_loop_run sid es (stream_loop_begin sid is_opened w))"
  have inv: "loop_inv sid (publish_log (frame_bus (snd w))) (total_frames r0) ?run"
    using assms by (intro loop_inv_run loop_inv_begin)
  have lg: "publish_log (frame_bus (snd (fst ?run)))
      = publish_log (frame_bus (snd w)) @ map (\<lambda>n. (sid, n)) [1..frame_id (snd ?run)]"
    and n: "0 \<le> frame_id (snd ?run)"
    using inv by (simp_all add: loop_inv_def)
  have rl: "run_log w (fst ?run) = map (\<lambda>n. (sid, n)) [1..frame_id (snd ?run)]"
    by (simp add: run_log_def lg)
  have a: "publish_log (frame_bus (snd (fst ?run)))
           = publish_log (frame_bus (snd w)) @ run_log w (fst ?run)"
    using lg rl by simp
  have ids: "map snd (run_log w (fst ?run)) = [1..frame_id (snd ?run)]"
    unfolding rl by (simp add: comp_def)
  have s: "sorted_wrt (<) (map snd (run_log w (fst ?run)))"
    unfolding ids by (rule sorted_wrt_upto)
  have len: "int (length (run_log w (fst ?run))) = frame_id (snd ?run)"
    unfolding rl using n by simp
  have t: "\<exists>r. streams (snd (fst ?run)) sid = Some r
           \<and> total_frames r = total_frames r0 + int (length (run_log w (fst ?run)))"
    using inv len by (simp add: loop_inv_def)
  show ?thesis using a rl s t iter_publishes [of st m sid rd e loop] by blast
qed

lemma registry_ok_end_task:
  "registry_ok w \<Longrightarrow> registry_ok (end_task sid w)"
  by (cases w)
     (auto simp: end_task_def registry_ok_def nth_cancel_and_await split: option.splits)

lemma registry_ok_update_reader:
  "registry_ok (loop, m) \<Longrightarrow> streams m sid = Some r \<Longrightarrow>
   registry_ok (loop, m\<lparr>streams := (streams m)(sid \<mapsto> r1)\<rparr>)"
  by (auto simp: registry_ok_def)


lemma registry_ok_publish:
  assumes "registry_ok (loop, m)"
    and "publish_frame sid n fr (loop, frame_bus m) = (loop2, bus2)"
  shows "registry_ok (loop2, m\<lparr>frame_bus := bus2\<rparr>)"
proof (cases "frame_queues (frame_bus m) sid")
  case None
  have np: "processing_tasks (frame_bus m) sid = None"
    using assms(1) None by (auto simp: registry_ok_def)
  show ?thesis
    using assms None np
    by (auto simp: publish_frame_def create_task_def enqueue_latest_empty registry_ok_def
        nth_append less_Suc_eq)
next
  case (Some q)
  then show ?thesis
    using assms by (auto simp: publish_frame_def registry_ok_def)
qed

lemma registry_ok_frames_processed:
  "registry_ok (loop, m) \<Longrightarrow>
   registry_ok (loop, m\<lparr>total_frames_processed := n\<rparr>)"
  by (simp add: registry_ok_def)

lemma registry_ok_iter:
  assumes "registry_ok (fst ws)"
  shows "registry_ok (fst (stream_loop_iter sid e ws))"
proof -
  obtain loop m st where ws: "ws = ((loop, m), st)" by (metis surj_pair)
  have ok: "registry_ok (loop, m)" using assms ws by simp
  show ?thesis
  proof (cases "alive st")
    case False
    then show ?thesis using ok ws by (simp add: stream_loop_iter_def)
  next
    case True
    show ?thesis
    proof (cases "is_running m")
      case False
      then show ?thesis
        using True ws registry_ok_end_task [OF ok, of sid] by (simp add: stream_loop_iter_def)
    next
      case run: True
      show ?thesis
      proof (cases "streams m sid")
        case None
        then show ?thesis using True run ok ws by (simp add: stream_loop_iter_def)
      next
        case (Some r)
        obtain res r1 where rf: "read_frame e r = (res, r1)" by (cases "read_frame e r")
        let ?m1 = "m\<lparr>streams := (streams m)(sid \<mapsto> r1)\<rparr>"
        have ok1: "registry_ok (loop, ?m1)"
          using ok Some by (rule registry_ok_update_reader)
        show ?thesis
        proof (cases res)
          case None
          then show ?thesis using True run ws Some rf ok1 by (simp add: stream_loop_iter_def)
        next
          case (Some fr)
          obtain loop2 bus2 where
            p: "publish_frame sid (frame_id st + 1) fr (loop, frame_bus ?m1) = (loop2, bus2)"
            by (cases "publish_frame sid (frame_id st + 1) fr (loop, frame_bus ?m1)")
          have ok2: "registry_ok (loop2, ?m1\<lparr>frame_bus := bus2\<rparr>)"
            using ok1 p by (rule registry_ok_publish)
          have ok3: "registry_ok (loop2, ?m1\<lparr>frame_bus := bus2,
              total_frames_processed := total_frames_processed ?m1 + 1\<rparr>)"
            using registry_ok_frames_processed [OF ok2] by simp
          show ?thesis
            using True run ws \<open>streams m sid = Some r\<close> rf Some p ok3
              registry_ok_end_task [OF ok3, of sid]
            by (simp add: stream_loop_iter_def Let_def)
        qed
      qed
    qed
  qed
qed

lemma registry_ok_run:
  "registry_ok (fst ws) \<Longrightarrow> registry_ok (fst (stream_loop_run sid es ws))"
proof (induction es arbitrary: ws)
  case Nil
  then show ?case by (simp add: stream_loop_run_def)
next
  case (Cons e es)
  have "stream_loop_run sid (e # es) ws = stream_loop_run sid es (stream_loop_iter sid e ws)"
    by (simp add: stream_loop_run_def)
  then show ?case using Cons.IH [OF registry_ok_iter [OF Cons.prems]] by simp
qed


lemma started_world:
  "snd (start_stream ''s'' \<lparr>camera_type = None, cfg_url = None, cfg_fps = Some 10,
        cfg_username = None, cfg_password = None\<rparr> ([], manager_start StreamManager_init))
   = ([\<lparr>coro = StreamLoop, task_session = ''s'', finished = False\<rparr>],
      (manager_start StreamManager_init)\<lparr>
         streams := [''s'' \<mapsto> RTSPReader_init ''s'' ''0'' 10 None None True 2 10],
         stream_tasks := [''s'' \<mapsto> 0]\<rparr>)"
  by (simp add: start_stream_fresh manager_start_def StreamManager_init_def make_reader_def)

lemmas run_defs = stream_loop_run_def stream_loop_begin_def stream_loop_iter_def
      manager_start_def StreamManager_init_def RTSPReader_init_def reader_start_def connect_def
      read_frame_def tick_def add_sample_def publish_frame_def create_task_def
      enqueue_latest_def full_def get_nowait_def put_nowait_def Queue_init_def bus_start_def
      FrameBus_init_def FPSCounter_init_def LatencyTracker_init_def reconnect_def
      disconnect_def Let_def

lemmas call_defs = start_stream_def start_stream_tail_def stop_stream_def make_reader_def
      start_stream_enter_def start_stream_resume_def start_stream_overlapped_def
      stop_stream_enter_def stop_stream_resume_def stop_stream_release_def
      cancel_and_await_def reader_stop_def end_task_def


theorem capture_loop_sequence_numbers_witness:
  "streams (snd (snd (start_stream ''s'' \<lparr>camera_type = None, cfg_url = None, cfg_fps = Some 10,
        cfg_username = None, cfg_password = None\<rparr> ([], manager_start StreamManager_init)))) ''s''
     = Some (RTSPReader_init ''s'' ''0'' 10 None None True 2 10)
   \<and> publish_log (frame_bus (snd (fst (stream_loop_run ''s''
        [\<lparr>opened = True, grabbed = Some (Frame 1), now = 0, read_time_ms = 5\<rparr>,
         \<lparr>opened = True, grabbed = None, now = 1 / 10, read_time_ms = 5\<rparr>,
         \<lparr>opened = True, grabbed = Some (Frame 2), now = 2 / 10, read_time_ms = 5\<rparr>,
         \<lparr>opened = True, grabbed = Some (Frame 3), now = 3 / 10, read_time_ms = 5\<rparr>]
        (stream_loop_begin ''s'' True
          (snd (start_stream ''s'' \<lparr>camera_type = None, cfg_url = None, cfg_fps = Some 10,
        cfg_username = None, cfg_password = None\<rparr> ([], manager_start StreamManager_init))))))))
       = [(''s'', 1), (''s'', 2)]
   \<and> (\<exists>r. streams (snd (fst (stream_loop_run ''s''
        [\<lparr>opened = True, grabbed = Some (Frame 1), now = 0, read_time_ms = 5\<rparr>,
         \<lparr>opened = True, grabbed = None, now = 1 / 10, read_time_ms = 5\<rparr>,
         \<lparr>opened = True, grabbed = Some (Frame 2), now = 2 / 10, read_time_ms = 5\<rparr>,
         \<lparr>opened = True, grabbed = Some (Frame 3), now = 3 / 10, read_time_ms = 5\<rparr>]
        (stream_loop_begin ''s'' True
          (snd (start_stream ''s'' \<lparr>camera_type = None, cfg_url = None, cfg_fps = Some 10,
        cfg_username = None, cfg_password = None\<rparr> ([], manager_start StreamManager_init))))))) ''s'' = Some r \<and> total_frames r = 2)
   \<and> publish_log (frame_bus (snd (fst (stream_loop_iter ''s'' \<lparr>opened = True, grabbed = Some (Frame 1), now = 0, read_time_ms = 5\<rparr>
          (([], (manager_start StreamManager_init)\<lparr>streams :=
           [''s'' \<mapsto> (RTSPReader_init ''s'' ''0'' 10 None None True 2 10)\<lparr>capture := Some True,
              is_connected := True, reader_is_running := True\<rparr>]\<rparr>),
           \<lparr>frame_id = 0, alive = True\<rparr>))))) = [(''s'', 1)]
   \<and> (\<exists>q. frame_queues (frame_bus (snd (fst (stream_loop_iter ''s'' \<lparr>opened = True, grabbed = Some (Frame 1), now = 0, read_time_ms = 5\<rparr>
          (([], (manager_start StreamManager_init)\<lparr>streams :=
           [''s'' \<mapsto> (RTSPReader_init ''s'' ''0'' 10 None None True 2 10)\<lparr>capture := Some True,
              is_connected := True, reader_is_running := True\<rparr>]\<rparr>),
           \<lparr>frame_id = 0, alive = True\<rparr>))))) ''s'' = Some q
          \<and> last (items q) = (1, Frame 1))"
proof -
  have reg: "streams (snd (snd (start_stream ''s'' \<lparr>camera_type = None, cfg_url = None, cfg_fps = Some 10,
        cfg_username = None, cfg_password = None\<rparr> ([], manager_start StreamManager_init)))) ''s''
     = Some (RTSPReader_init ''s'' ''0'' 10 None None True 2 10)"
    by (simp add: started_world)
  have log0: "publish_log (frame_bus (snd (snd (start_stream ''s'' \<lparr>camera_type = None, cfg_url = None, cfg_fps = Some 10,
        cfg_username = None, cfg_password = None\<rparr> ([], manager_start StreamManager_init))))) = []"
    unfolding started_world
    by (simp add: manager_start_def StreamManager_init_def FrameBus_init_def bus_start_def)
  note T = capture_loop_sequence_numbers [OF reg, of
        "[\<lparr>opened = True, grabbed = Some (Frame 1), now = 0, read_time_ms = 5\<rparr>,
         \<lparr>opened = True, grabbed = None, now = 1 / 10, read_time_ms = 5\<rparr>,
         \<lparr>opened = True, grabbed = Some (Frame 2), now = 2 / 10, read_time_ms = 5\<rparr>,
         \<lparr>opened = True, grabbed = Some (Frame 3), now = 3 / 10, read_time_ms = 5\<rparr>]" True
        "\<lparr>frame_id = 0, alive = True\<rparr>"
        "(manager_start StreamManager_init)\<lparr>streams :=
           [''s'' \<mapsto> (RTSPReader_init ''s'' ''0'' 10 None None True 2 10)\<lparr>capture := Some True,
              is_connected := True, reader_is_running := True\<rparr>]\<rparr>"
        "(RTSPReader_init ''s'' ''0'' 10 None None True 2 10)\<lparr>capture := Some True,
              is_connected := True, reader_is_running := True\<rparr>"
        "\<lparr>opened = True, grabbed = Some (Frame 1), now = 0, read_time_ms = 5\<rparr>" "[]"]
  have pub: "publish_log (frame_bus (snd (fst (stream_loop_run ''s''
        [\<lparr>opened = True, grabbed = Some (Frame 1), now = 0, read_time_ms = 5\<rparr>,
         \<lparr>opened = True, grabbed = None, now = 1 / 10, read_time_ms = 5\<rparr>,
         \<lparr>opened = True, grabbed = Some (Frame 2), now = 2 / 10, read_time_ms = 5\<rparr>,
         \<lparr>opened = True, grabbed = Some (Frame 3), now = 3 / 10, read_time_ms = 5\<rparr>]
        (stream_loop_begin ''s'' True
          (snd (start_stream ''s'' \<lparr>camera_type = None, cfg_url = None, cfg_fps = Some 10,
        cfg_username = None, cfg_password = None\<rparr> ([], manager_start StreamManager_init))))))))
       = [(''s'', 1), (''s'', 2)]"
    unfolding started_world by (simp add: run_defs)
  have rl: "run_log (snd (start_stream ''s'' \<lparr>camera_type = None, cfg_url = None, cfg_fps = Some 10,
        cfg_username = None, cfg_password = None\<rparr> ([], manager_start StreamManager_init)))
       (fst (stream_loop_run ''s''
        [\<lparr>opened = True, grabbed = Some (Frame 1), now = 0, read_time_ms = 5\<rparr>,
         \<lparr>opened = True, grabbed = None, now = 1 / 10, read_time_ms = 5\<rparr>,
         \<lparr>opened = True, grabbed = Some (Frame 2), now = 2 / 10, read_time_ms = 5\<rparr>,
         \<lparr>opened = True, grabbed = Some (Frame 3), now = 3 / 10, read_time_ms = 5\<rparr>]
        (stream_loop_begin ''s'' True
          (snd (start_stream ''s'' \<lparr>camera_type = None, cfg_url = None, cfg_fps = Some 10,
        cfg_username = None, cfg_password = None\<rparr> ([], manager_start StreamManager_init)))))) = [(''s'', 1), (''s'', 2)]"
    unfolding run_log_def pub log0 by simp
  have ex: "\<exists>r. streams (snd (fst (stream_loop_run ''s''
        [\<lparr>opened = True, grabbed = Some (Frame 1), now = 0, read_time_ms = 5\<rparr>,
         \<lparr>opened = True, grabbed = None, now = 1 / 10, read_time_ms = 5\<rparr>,
         \<lparr>opened = True, grabbed = Some (Frame 2), now = 2 / 10, read_time_ms = 5\<rparr>,
         \<lparr>opened = True, grabbed = Some (Frame 3), now = 3 / 10, read_time_ms = 5\<rparr>]
        (stream_loop_begin ''s'' True
          (snd (start_stream ''s'' \<lparr>camera_type = None, cfg_url = None, cfg_fps = Some 10,
        cfg_username = None, cfg_password = None\<rparr> ([], manager_start StreamManager_init))))))) ''s'' = Some r \<and> total_frames r = 2"
    using T [unfolded rl] by (simp add: RTSPReader_init_def)
  have step: "publish_log (frame_bus (snd (fst (stream_loop_iter ''s'' \<lparr>opened = True, grabbed = Some (Frame 1), now = 0, read_time_ms = 5\<rparr>
          (([], (manager_start StreamManager_init)\<lparr>streams :=
           [''s'' \<mapsto> (RTSPReader_init ''s'' ''0'' 10 None None True 2 10)\<lparr>capture := Some True,
              is_connected := True, reader_is_running := True\<rparr>]\<rparr>),
           \<lparr>frame_id = 0, alive = True\<rparr>))))) = [(''s'', 1)]
   \<and> (\<exists>q. frame_queues (frame_bus (snd (fst (stream_loop_iter ''s'' \<lparr>opened = True, grabbed = Some (Frame 1), now = 0, read_time_ms = 5\<rparr>
          (([], (manager_start StreamManager_init)\<lparr>streams :=
           [''s'' \<mapsto> (RTSPReader_init ''s'' ''0'' 10 None None True 2 10)\<lparr>capture := Some True,
              is_connected := True, reader_is_running := True\<rparr>]\<rparr>),
           \<lparr>frame_id = 0, alive = True\<rparr>))))) ''s'' = Some q
          \<and> last (items q) = (1, Frame 1))"
    using T
    by (simp add: manager_start_def StreamManager_init_def FrameBus_init_def bus_start_def
        read_frame_def RTSPReader_init_def queue_ok_def)
  show ?thesis using reg pub ex step by blast
qed

text \<open>
  The numbering does not carry over a restart: a session publishes the numbers 1 and 2, is
  stopped and started again, and publishes one more frame. The calls of \<open>publish_frame\<close>
  for the session carry the numbers 1, 2, 1, and the queue of the session, which
  \<open>stop_stream\<close> left in the bus, holds number 2 followed by number 1.
\<close>

theorem sequence_numbers_reused_after_restart:
  "publish_log (frame_bus (snd (fst (stream_loop_run ''s''
        [\<lparr>opened = True, grabbed = Some (Frame 3), now = 2 / 10, read_time_ms = 5\<rparr>]
        (stream_loop_begin ''s'' True
          (snd (start_stream ''s'' \<lparr>camera_type = None, cfg_url = None, cfg_fps = Some 10,
        cfg_username = None, cfg_password = None\<rparr>
          (snd (stop_stream ''s'' (fst (stream_loop_run ''s''
        [\<lparr>opened = True, grabbed = Some (Frame 1), now = 0, read_time_ms = 5\<rparr>,
         \<lparr>opened = True, grabbed = Some (Frame 2), now = 1 / 10, read_time_ms = 5\<rparr>]
        (stream_loop_begin ''s'' True
          (snd (start_stream ''s'' \<lparr>camera_type = None, cfg_url = None, cfg_fps = Some 10,
        cfg_username = None, cfg_password = None\<rparr> ([], manager_start StreamManager_init)))))))))))))))
     = [(''s'', 1), (''s'', 2), (''s'', 1)]
   \<and> frame_queues (frame_bus (snd (fst (stream_loop_run ''s''
        [\<lparr>opened = True, grabbed = Some (Frame 3), now = 2 / 10, read_time_ms = 5\<rparr>]
        (stream_loop_begin ''s'' True
          (snd (start_stream ''s'' \<lparr>camera_type = None, cfg_url = None, cfg_fps = Some 10,
        cfg_username = None, cfg_password = None\<rparr>
          (snd (stop_stream ''s'' (fst (stream_loop_run ''s''
        [\<lparr>opened = True, grabbed = Some (Frame 1), now = 0, read_time_ms = 5\<rparr>,
         \<lparr>opened = True, grabbed = Some (Frame 2), now = 1 / 10, read_time_ms = 5\<rparr>]
        (stream_loop_begin ''s'' True
          (snd (start_stream ''s'' \<lparr>camera_type = None, cfg_url = None, cfg_fps = Some 10,
        cfg_username = None, cfg_password = None\<rparr> ([], manager_start StreamManager_init))))))))))))))) ''s''
     = Some \<lparr>maxsize = 2, items = [(2, Frame 2), (1, Frame 3)]\<rparr>
   \<and> \<not> distinct (map snd (publish_log (frame_bus (snd (fst (stream_loop_run ''s''
        [\<lparr>opened = True, grabbed = Some (Frame 3), now = 2 / 10, read_time_ms = 5\<rparr>]
        (stream_loop_begin ''s'' True
          (snd (start_stream ''s'' \<lparr>camera_type = None, cfg_url = None, cfg_fps = Some 10,
        cfg_username = None, cfg_password = None\<rparr>
          (snd (stop_stream ''s'' (fst (stream_loop_run ''s''
        [\<lparr>opened = True, grabbed = Some (Frame 1), now = 0, read_time_ms = 5\<rparr>,
         \<lparr>opened = True, grabbed = Some (Frame 2), now = 1 / 10, read_time_ms = 5\<rparr>]
        (stream_loop_begin ''s'' True
          (snd (start_stream ''s'' \<lparr>camera_type = None, cfg_url = None, cfg_fps = Some 10,
        cfg_username = None, cfg_password = None\<rparr> ([], manager_start StreamManager_init)))))))))))))))))"
proof -
  have a: "publish_log (frame_bus (snd (fst (stream_loop_run ''s''
        [\<lparr>opened = True, grabbed = Some (Frame 3), now = 2 / 10, read_time_ms = 5\<rparr>]
        (stream_loop_begin ''s'' True
          (snd (start_stream ''s'' \<lparr>camera_type = None, cfg_url = None, cfg_fps = Some 10,
        cfg_username = None, cfg_password = None\<rparr>
          (snd (stop_stream ''s'' (fst (stream_loop_run ''s''
        [\<lparr>opened = True, grabbed = Some (Frame 1), now = 0, read_time_ms = 5\<rparr>,
         \<lparr>opened = True, grabbed = Some (Frame 2), now = 1 / 10, read_time_ms = 5\<rparr>]
        (stream_loop_begin ''s'' True
          (snd (start_stream ''s'' \<lparr>camera_type = None, cfg_url = None, cfg_fps = Some 10,
        cfg_username = None, cfg_password = None\<rparr> ([], manager_start StreamManager_init)))))))))))))))
     = [(''s'', 1), (''s'', 2), (''s'', 1)]"
    unfolding started_world by (simp add: run_defs call_defs)
  have b: "frame_queues (frame_bus (snd (fst (stream_loop_run ''s''
        [\<lparr>opened = True, grabbed = Some (Frame 3), now = 2 / 10, read_time_ms = 5\<rparr>]
        (stream_loop_begin ''s'' True
          (snd (start_stream ''s'' \<lparr>camera_type = None, cfg_url = None, cfg_fps = Some 10,
        cfg_username = None, cfg_password = None\<rparr>
          (snd (stop_stream ''s'' (fst (stream_loop_run ''s''
        [\<lparr>opened = True, grabbed = Some (Frame 1), now = 0, read_time_ms = 5\<rparr>,
         \<lparr>opened = True, grabbed = Some (Frame 2), now = 1 / 10, read_time_ms = 5\<rparr>]
        (stream_loop_begin ''s'' True
          (snd (start_stream ''s'' \<lparr>camera_type = None, cfg_url = None, cfg_fps = Some 10,
        cfg_username = None, cfg_password = None\<rparr> ([], manager_start StreamManager_init))))))))))))))) ''s''
     = Some \<lparr>maxsize = 2, items = [(2, Frame 2), (1, Frame 3)]\<rparr>"
    unfolding started_world by (simp add: run_defs call_defs)
  show ?thesis unfolding a using b by simp
qed



lemma dropped_ok_iter:
  assumes "\<forall>r. streams (snd (fst ws)) sid = Some r \<longrightarrow> dropped_frames r = 0"
  shows "\<forall>r. streams (snd (fst (stream_loop_iter sid e ws))) sid = Some r \<longrightarrow> dropped_frames r = 0"
proof -
  obtain loop m st where ws: "ws = ((loop, m), st)" by (metis surj_pair)
  show ?thesis
  proof (cases "streams m sid")
    case None
    then show ?thesis using ws by (simp add: stream_loop_iter_def)
  next
    case (Some r)
    obtain res r1 where rf: "read_frame e r = (res, r1)" by (cases "read_frame e r")
    have d: "dropped_frames r1 = 0"
      using read_frame_total [of e r] rf assms ws Some by simp
    show ?thesis using ws Some rf d assms
      by (auto simp: stream_loop_iter_def Let_def split: option.splits prod.splits)
  qed
qed

lemma dropped_ok_run:
  "\<forall>r. streams (snd (fst ws)) sid = Some r \<longrightarrow> dropped_frames r = 0 \<Longrightarrow>
   \<forall>r. streams (snd (fst (stream_loop_run sid es ws))) sid = Some r \<longrightarrow> dropped_frames r = 0"
proof (induction es arbitrary: ws)
  case Nil
  then show ?case by (simp add: stream_loop_run_def)
next
  case (Cons e es)
  have "stream_loop_run sid (e # es) ws = stream_loop_run sid es (stream_loop_iter sid e ws)"
    by (simp add: stream_loop_run_def)
  then show ?case using Cons.IH [OF dropped_ok_iter [OF Cons.prems]] by simp
qed

lemma dropped_ok_begin:
  "\<forall>r. streams (snd w) sid = Some r \<longrightarrow> dropped_frames r = 0 \<Longrightarrow>
   \<forall>r. streams (snd (fst (stream_loop_begin sid is_opened w))) sid = Some r \<longrightarrow> dropped_frames r = 0"
  by (cases w)
     (auto simp: stream_loop_begin_def reader_start_def connect_def Let_def split: option.splits)

lemma make_reader_dropped: "make_reader sid cfg = Inr reader \<Longrightarrow> dropped_frames reader = 0"
  by (auto simp: make_reader_def RTSPReader_init_def Let_def split: option.splits if_splits)

lemma dropped_ok_start:
  "\<forall>r. streams (snd (snd (start_stream sid cfg w))) sid = Some r \<longrightarrow> dropped_frames r = 0"
proof (cases "make_reader sid cfg")
  case (Inr reader)
  then show ?thesis using start_stream_result [of sid cfg w] make_reader_dropped [OF Inr] by simp
next
  case (Inl e)
  have fresh: "\<And>loop m. streams m sid = None \<Longrightarrow>
      streams (snd (snd (start_stream sid cfg (loop, m)))) sid = None"
    using Inl by (simp add: start_stream_fresh)
  show ?thesis
  proof (cases "streams (snd w) sid")
    case None
    then show ?thesis using fresh [of "snd w" "fst w"] by simp
  next
    case (Some reader)
    then have a: "streams (snd w) sid \<noteq> None" by simp
    show ?thesis
      using start_stream_active [OF a, of cfg]
        fresh [of "snd (snd (stop_stream sid w))" "fst (snd (stop_stream sid w))"]
      by simp
  qed
qed

text \<open>
  Claim C8. A webcam session at 10 frames per second on a bus of capacity 2, three frames
  read and published with no consumer step: the bus has dropped frame 1 and holds frames 2
  and 3, and \<open>get_stream_metrics\<close> reports three frames in total and
  \<open>dropped_frames = 0\<close>. More generally, after \<open>start_stream\<close> and any run of the
  capture loop of the session, the reported \<open>dropped_frames\<close> is 0: no code path counts a
  dropped frame, so the value does not rise under backpressure.
\<close>

theorem dropped_frames_stays_zero:
  "get_stream_metrics ''s'' (snd (fst (stream_loop_run ''s''
        [\<lparr>opened = True, grabbed = Some (Frame 1), now = 0, read_time_ms = 5\<rparr>,
         \<lparr>opened = True, grabbed = Some (Frame 2), now = 1 / 10, read_time_ms = 5\<rparr>,
         \<lparr>opened = True, grabbed = Some (Frame 3), now = 2 / 10, read_time_ms = 5\<rparr>]
        (stream_loop_begin ''s'' True
          (snd (start_stream ''s'' \<lparr>camera_type = None, cfg_url = None, cfg_fps = Some 10,
        cfg_username = None, cfg_password = None\<rparr> ([], manager_start StreamManager_init)))))))
     = Some \<lparr>metrics_fps = 15, latency_ms = 5, metrics_dropped_frames = 0, metrics_total_frames = 3\<rparr>
   \<and> frame_queues (frame_bus (snd (fst (stream_loop_run ''s''
        [\<lparr>opened = True, grabbed = Some (Frame 1), now = 0, read_time_ms = 5\<rparr>,
         \<lparr>opened = True, grabbed = Some (Frame 2), now = 1 / 10, read_time_ms = 5\<rparr>,
         \<lparr>opened = True, grabbed = Some (Frame 3), now = 2 / 10, read_time_ms = 5\<rparr>]
        (stream_loop_begin ''s'' True
          (snd (start_stream ''s'' \<lparr>camera_type = None, cfg_url = None, cfg_fps = Some 10,
        cfg_username = None, cfg_password = None\<rparr> ([], manager_start StreamManager_init)))))))) ''s''
     = Some \<lparr>maxsize = 2, items = [(2, Frame 2), (3, Frame 3)]\<rparr>
   \<and> (\<forall>es is_opened.
        (case get_stream_metrics sid (snd (fst (stream_loop_run sid es
                 (stream_loop_begin sid is_opened (snd (start_stream sid cfg w)))))) of
           None \<Rightarrow> 0
         | Some x \<Rightarrow> metrics_dropped_frames x) = 0)"
proof -
  have a: "get_stream_metrics ''s'' (snd (fst (stream_loop_run ''s''
        [\<lparr>opened = True, grabbed = Some (Frame 1), now = 0, read_time_ms = 5\<rparr>,
         \<lparr>opened = True, grabbed = Some (Frame 2), now = 1 / 10, read_time_ms = 5\<rparr>,
         \<lparr>opened = True, grabbed = Some (Frame 3), now = 2 / 10, read_time_ms = 5\<rparr>]
        (stream_loop_begin ''s'' True
          (snd (start_stream ''s'' \<lparr>camera_type = None, cfg_url = None, cfg_fps = Some 10,
        cfg_username = None, cfg_password = None\<rparr> ([], manager_start StreamManager_init)))))))
     = Some \<lparr>metrics_fps = 15, latency_ms = 5, metrics_dropped_frames = 0, metrics_total_frames = 3\<rparr>"
    unfolding started_world
    by (simp add: run_defs get_stream_metrics_def get_current_fps_def get_average_latency_def
        get_fps_def get_average_def)
  have b: "frame_queues (frame_bus (snd (fst (stream_loop_run ''s''
        [\<lparr>opened = True, grabbed = Some (Frame 1), now = 0, read_time_ms = 5\<rparr>,
         \<lparr>opened = True, grabbed = Some (Frame 2), now = 1 / 10, read_time_ms = 5\<rparr>,
         \<lparr>opened = True, grabbed = Some (Frame 3), now = 2 / 10, read_time_ms = 5\<rparr>]
        (stream_loop_begin ''s'' True
          (snd (start_stream ''s'' \<lparr>camera_type = None, cfg_url = None, cfg_fps = Some 10,
        cfg_username = None, cfg_password = None\<rparr> ([], manager_start StreamManager_init)))))))) ''s''
     = Some \<lparr>maxsize = 2, items = [(2, Frame 2), (3, Frame 3)]\<rparr>"
    unfolding started_world by (simp add: run_defs)
  have c: "\<forall>es is_opened.
        (case get_stream_metrics sid (snd (fst (stream_loop_run sid es
                 (stream_loop_begin sid is_opened (snd (start_stream sid cfg w)))))) of
           None \<Rightarrow> 0
         | Some x \<Rightarrow> metrics_dropped_frames x) = 0"
  proof (intro allI)
    fix es is_opened
    have "\<forall>r. streams (snd (fst (stream_loop_run sid es
             (stream_loop_begin sid is_opened (snd (start_stream sid cfg w)))))) sid = Some r
           \<longrightarrow> dropped_frames r = 0"
      by (intro dropped_ok_run dropped_ok_begin dropped_ok_start)
    then show "(case get_stream_metrics sid (snd (fst (stream_loop_run sid es
                 (stream_loop_begin sid is_opened (snd (start_stream sid cfg w)))))) of
           None \<Rightarrow> 0
         | Some x \<Rightarrow> metrics_dropped_frames x) = 0"
      by (simp add: get_stream_metrics_def split: option.splits)
  qed
  show ?thesis using a b c by blast
qed

lemma stop_stream_keeps_bus: "frame_bus (snd (snd (stop_stream sid w))) = frame_bus (snd w)"
  by (cases w) (simp add: stop_stream_def split: option.splits)

text \<open>
  Claim C1. A session is started, its capture loop publishes one frame (which makes the bus
  create a queue and a distribution task for it), and \<open>stop_stream\<close> is called: the call
  succeeds, the registry has no reader and no capture task for the session and no capture
  task of the session is left running, but the bus still holds the queue of the session
  with the frame in it, and the distribution task of the session is still registered and
  running. For every session and state, \<open>stop_stream\<close> leaves the bus as it was: it does
  not unsubscribe the session.
\<close>

theorem stop_stream_leaves_bus_resources:
  "fst (stop_stream ''s'' (fst (stream_loop_run ''s''
        [\<lparr>opened = True, grabbed = Some (Frame 1), now = 0, read_time_ms = 5\<rparr>]
        (stream_loop_begin ''s'' True
          (snd (start_stream ''s'' \<lparr>camera_type = None, cfg_url = None, cfg_fps = Some 10,
        cfg_username = None, cfg_password = None\<rparr> ([], manager_start StreamManager_init))))))) = Inr ()
   \<and> streams (snd (snd (stop_stream ''s'' (fst (stream_loop_run ''s''
        [\<lparr>opened = True, grabbed = Some (Frame 1), now = 0, read_time_ms = 5\<rparr>]
        (stream_loop_begin ''s'' True
          (snd (start_stream ''s'' \<lparr>camera_type = None, cfg_url = None, cfg_fps = Some 10,
        cfg_username = None, cfg_password = None\<rparr> ([], manager_start StreamManager_init))))))))) ''s'' = None
   \<and> stream_tasks (snd (snd (stop_stream ''s'' (fst (stream_loop_run ''s''
        [\<lparr>opened = True, grabbed = Some (Frame 1), now = 0, read_time_ms = 5\<rparr>]
        (stream_loop_begin ''s'' True
          (snd (start_stream ''s'' \<lparr>camera_type = None, cfg_url = None, cfg_fps = Some 10,
        cfg_username = None, cfg_password = None\<rparr> ([], manager_start StreamManager_init))))))))) ''s'' = None
   \<and> live_tasks StreamLoop ''s'' (fst (snd (stop_stream ''s'' (fst (stream_loop_run ''s''
        [\<lparr>opened = True, grabbed = Some (Frame 1), now = 0, read_time_ms = 5\<rparr>]
        (stream_loop_begin ''s'' True
          (snd (start_stream ''s'' \<lparr>camera_type = None, cfg_url = None, cfg_fps = Some 10,
        cfg_username = None, cfg_password = None\<rparr> ([], manager_start StreamManager_init))))))))) = []
   \<and> frame_queues (frame_bus (snd (snd (stop_stream ''s'' (fst (stream_loop_run ''s''
        [\<lparr>opened = True, grabbed = Some (Frame 1), now = 0, read_time_ms = 5\<rparr>]
        (stream_loop_begin ''s'' True
          (snd (start_stream ''s'' \<lparr>camera_type = None, cfg_url = None, cfg_fps = Some 10,
        cfg_username = None, cfg_password = None\<rparr> ([], manager_start StreamManager_init)))))))))) ''s''
       = Some \<lparr>maxsize = 2, items = [(1, Frame 1)]\<rparr>
   \<and> processing_tasks (frame_bus (snd (snd (stop_stream ''s'' (fst (stream_loop_run ''s''
        [\<lparr>opened = True, grabbed = Some (Frame 1), now = 0, read_time_ms = 5\<rparr>]
        (stream_loop_begin ''s'' True
          (snd (start_stream ''s'' \<lparr>camera_type = None, cfg_url = None, cfg_fps = Some 10,
        cfg_username = None, cfg_password = None\<rparr> ([], manager_start StreamManager_init)))))))))) ''s''
       = Some 1
   \<and> live_tasks ProcessFrames ''s'' (fst (snd (stop_stream ''s'' (fst (stream_loop_run ''s''
        [\<lparr>opened = True, grabbed = Some (Frame 1), now = 0, read_time_ms = 5\<rparr>]
        (stream_loop_begin ''s'' True
          (snd (start_stream ''s'' \<lparr>camera_type = None, cfg_url = None, cfg_fps = Some 10,
        cfg_username = None, cfg_password = None\<rparr> ([], manager_start StreamManager_init))))))))) = [1]
   \<and> frame_bus (snd (snd (stop_stream sid w))) = frame_bus (snd w)"
proof -
  have a: "fst (stop_stream ''s'' (fst (stream_loop_run ''s''
        [\<lparr>opened = True, grabbed = Some (Frame 1), now = 0, read_time_ms = 5\<rparr>]
        (stream_loop_begin ''s'' True
          (snd (start_stream ''s'' \<lparr>camera_type = None, cfg_url = None, cfg_fps = Some 10,
        cfg_username = None, cfg_password = None\<rparr> ([], manager_start StreamManager_init))))))) = Inr ()
   \<and> streams (snd (snd (stop_stream ''s'' (fst (stream_loop_run ''s''
        [\<lparr>opened = True, grabbed = Some (Frame 1), now = 0, read_time_ms = 5\<rparr>]
        (stream_loop_begin ''s'' True
          (snd (start_stream ''s'' \<lparr>camera_type = None, cfg_url = None, cfg_fps = Some 10,
        cfg_username = None, cfg_password = None\<rparr> ([], manager_start StreamManager_init))))))))) ''s'' = None
   \<and> stream_tasks (snd (snd (stop_stream ''s'' (fst (stream_loop_run ''s''
        [\<lparr>opened = True, grabbed = Some (Frame 1), now = 0, read_time_ms = 5\<rparr>]
        (stream_loop_begin ''s'' True
          (snd (start_stream ''s'' \<lparr>camera_type = None, cfg_url = None, cfg_fps = Some 10,
        cfg_username = None, cfg_password = None\<rparr> ([], manager_start StreamManager_init))))))))) ''s'' = None
   \<and> live_tasks StreamLoop ''s'' (fst (snd (stop_stream ''s'' (fst (stream_loop_run ''s''
        [\<lparr>opened = True, grabbed = Some (Frame 1), now = 0, read_time_ms = 5\<rparr>]
        (stream_loop_begin ''s'' True
          (snd (start_stream ''s'' \<lparr>camera_type = None, cfg_url = None, cfg_fps = Some 10,
        cfg_username = None, cfg_password = None\<rparr> ([], manager_start StreamManager_init))))))))) = []
   \<and> frame_queues (frame_bus (snd (snd (stop_stream ''s'' (fst (stream_loop_run ''s''
        [\<lparr>opened = True, grabbed = Some (Frame 1), now = 0, read_time_ms = 5\<rparr>]
        (stream_loop_begin ''s'' True
          (snd (start_stream ''s'' \<lparr>camera_type = None, cfg_url = None, cfg_fps = Some 10,
        cfg_username = None, cfg_password = None\<rparr> ([], manager_start StreamManager_init)))))))))) ''s''
       = Some \<lparr>maxsize = 2, items = [(1, Frame 1)]\<rparr>
   \<and> processing_tasks (frame_bus (snd (snd (stop_stream ''s'' (fst (stream_loop_run ''s''
        [\<lparr>opened = True, grabbed = Some (Frame 1), now = 0, read_time_ms = 5\<rparr>]
        (stream_loop_begin ''s'' True
          (snd (start_stream ''s'' \<lparr>camera_type = None, cfg_url = None, cfg_fps = Some 10,
        cfg_username = None, cfg_password = None\<rparr> ([], manager_start StreamManager_init)))))))))) ''s''
       = Some 1
   \<and> live_tasks ProcessFrames ''s'' (fst (snd (stop_stream ''s'' (fst (stream_loop_run ''s''
        [\<lparr>opened = True, grabbed = Some (Frame 1), now = 0, read_time_ms = 5\<rparr>]
        (stream_loop_begin ''s'' True
          (snd (start_stream ''s'' \<lparr>camera_type = None, cfg_url = None, cfg_fps = Some 10,
        cfg_username = None, cfg_password = None\<rparr> ([], manager_start StreamManager_init))))))))) = [1]"
    unfolding started_world
    by (simp add: run_defs stop_stream_def live_tasks_def cancel_and_await_def)
  show ?thesis using a stop_stream_keeps_bus [of sid w] by blast
qed

end
